theory Spec2Isabelle
  imports Complex_Main
begin

section \<open>JavaScript values and errors\<close>

text \<open>
  Every \<open>throw new Error(...)\<close> of the sources is a branch returning \<open>Inl\<close> of one of
  the error kinds below; the kind is the one section 7 of the specification gives to the
  throw site. \<open>TypeError\<close> is the error the JavaScript runtime itself raises when a
  property of \<open>null\<close> or \<open>undefined\<close> is read or written, \<open>ReferenceError\<close> the one it
  raises for a name that is not defined.
\<close>

datatype error =
    TypeError
  | ReferenceError
  | InvalidInputError
  | IndexOutOfRangeError
  | DimensionMismatchError
  | UnsupportedDimensionError
  | NotImplementedError
  | InvalidTopologyError

text \<open>
  A JavaScript array read out of range yields \<open>undefined\<close> rather than failing, so the
  result of an indexed read is a value or \<open>Undefined\<close>. The type of numbers stays a
  parameter wherever the code only copies them.
\<close>

datatype 'a jsval = Val 'a | Undefined

definition js_nth :: "'a list \<Rightarrow> nat \<Rightarrow> 'a jsval" where
  "js_nth xs k = (if k < length xs then Val (xs ! k) else Undefined)"

text \<open>Truthiness of a boolean-or-undefined value, as \<open>!v\<close> and \<open>if (v)\<close> see it.\<close>

fun truthy :: "bool jsval \<Rightarrow> bool" where
  "truthy (Val b) = b"
| "truthy Undefined = False"

text \<open>
  Modelled from the spec: \<open>core.utils\<close> is not among the sources. \<open>array2d(m, n, v)\<close>
  builds the table of \<open>m\<close> rows and \<open>n\<close> columns filled with \<open>v\<close>; the tables of a
  Field have the shape \<open>nfens\<close> by \<open>dim\<close> (section 3 of the specification).
\<close>

definition array2d :: "nat \<Rightarrow> nat \<Rightarrow> 'a \<Rightarrow> 'a list list" where
  "array2d m n v = replicate m (replicate n v)"

text \<open>
  Modelled from the spec: \<open>check.isVectorOfDimension(vec, n)\<close> of \<open>core.utils\<close> holds
  when \<open>vec\<close> is an array of \<open>n\<close> numbers.
\<close>

definition isVectorOfDimension :: "'a list \<Rightarrow> int \<Rightarrow> bool" where
  "isVectorOfDimension vec n = (int (length vec) = n)"

section \<open>The value container of a Field\<close>

text \<open>
  Modelled from the spec: \<open>geometry.pointset\<close> is not among the sources. A PointSet is
  the per-node vector-valued container of section 3: \<open>getSize()\<close> nodes, each a vector of
  \<open>getRn()\<close> components. \<open>get(idx)\<close> reads the vector of node \<open>idx\<close> and
  \<open>setAtDir_(idx, dir, val)\<close> overwrites one component of one node; an index outside the
  container is an \<open>IndexOutOfRangeError\<close> (section 7). The trailing underscore of the
  JavaScript names is dropped, since a constant name may not end with one.
\<close>

record 'n PointSet =
  rn :: nat
  points :: "'n jsval list list"

definition PointSet_getSize :: "'n PointSet \<Rightarrow> nat" where
  "PointSet_getSize ps = length (points ps)"

definition PointSet_getRn :: "'n PointSet \<Rightarrow> nat" where
  "PointSet_getRn ps = rn ps"

definition PointSet_get :: "'n PointSet \<Rightarrow> nat \<Rightarrow> error + 'n jsval list" where
  "PointSet_get ps idx =
     (if idx < length (points ps) then Inr (points ps ! idx) else Inl IndexOutOfRangeError)"

definition PointSet_setAtDir ::
  "'n PointSet \<Rightarrow> nat \<Rightarrow> nat \<Rightarrow> 'n jsval \<Rightarrow> error + 'n PointSet" where
  "PointSet_setAtDir ps idx dir val =
     (if idx < length (points ps) \<and> dir < rn ps \<and> dir < length (points ps ! idx)
      then Inr (ps\<lparr>points := (points ps)[idx := (points ps ! idx)[dir := val]]\<rparr>)
      else Inl IndexOutOfRangeError)"

section \<open>Field: the state of \<open>field.js\<close>\<close>

text \<open>
  The five attributes set by the constructor. \<open>None\<close> is JavaScript's \<open>null\<close>: a field
  built without boundary conditions has no prescribed tables, and a field whose equations
  have not been numbered yet has no equation-number table. Node and direction indices
  are the 0-based integers of the JSDoc, hence naturals.
\<close>

record 'n Field =
  f_values :: "'n PointSet"
  f_prescribed :: "bool list list option"
  f_prescribedValues :: "'n jsval list list option"
  f_eqnums :: "int list list option"
  f_neqns :: int

definition INVALID_EQUATION_NUM :: int where
  "INVALID_EQUATION_NUM = - 1"

definition Field_nfens :: "'n Field \<Rightarrow> nat" where
  "Field_nfens f = PointSet_getSize (f_values f)"

definition Field_dim :: "'n Field \<Rightarrow> nat" where
  "Field_dim f = PointSet_getRn (f_values f)"

definition Field_at :: "'n Field \<Rightarrow> nat \<Rightarrow> error + 'n jsval list" where
  "Field_at f idx = PointSet_get (f_values f) idx"

text \<open>
  \<open>isPrescribed\<close>: \<open>false\<close> without a table; otherwise \<open>this._prescribed[index][direction]\<close>,
  which fails with a TypeError when the row is missing and is \<open>undefined\<close> when only the
  column is.
\<close>

definition Field_isPrescribed :: "'n Field \<Rightarrow> nat \<Rightarrow> nat \<Rightarrow> error + bool jsval" where
  "Field_isPrescribed f index direction =
     (case f_prescribed f of
        None \<Rightarrow> Inr (Val False)
      | Some p \<Rightarrow>
          if index < length p then Inr (js_nth (p ! index) direction) else Inl TypeError)"

text \<open>
  The two nested loops of \<open>_numberEqnums_\<close>. The table \<open>eqs\<close> was built by
  \<open>array2d(nfens, dim, INVALID_EQUATION_NUM)\<close> and \<open>i < nfens\<close>, \<open>j < dim\<close>, so the
  write \<open>eqnums[i][j] = count++\<close> is always inside the table.
\<close>

function numberEqnums_inner ::
  "'n Field \<Rightarrow> nat \<Rightarrow> nat \<Rightarrow> nat \<Rightarrow> int list list \<Rightarrow> int \<Rightarrow> error + (int list list \<times> int)" where
  "numberEqnums_inner f i j d eqs cnt =
     (if j < d then
        (case Field_isPrescribed f i j of
           Inl e \<Rightarrow> Inl e
         | Inr p \<Rightarrow>
             if \<not> truthy p
             then numberEqnums_inner f i (Suc j) d (eqs[i := (eqs ! i)[j := cnt]]) (cnt + 1)
             else numberEqnums_inner f i (Suc j) d eqs cnt)
      else Inr (eqs, cnt))"
  by pat_completeness auto
termination
  by (relation "measure (\<lambda>(f, i, j, d, eqs, cnt). d - j)") auto

function numberEqnums_outer ::
  "'n Field \<Rightarrow> nat \<Rightarrow> nat \<Rightarrow> nat \<Rightarrow> int list list \<Rightarrow> int \<Rightarrow> error + (int list list \<times> int)" where
  "numberEqnums_outer f i n d eqs cnt =
     (if i < n then
        (case numberEqnums_inner f i 0 d eqs cnt of
           Inl e \<Rightarrow> Inl e
         | Inr (eqs', cnt') \<Rightarrow> numberEqnums_outer f (Suc i) n d eqs' cnt')
      else Inr (eqs, cnt))"
  by pat_completeness auto
termination
  by (relation "measure (\<lambda>(f, i, n, d, eqs, cnt). n - i)") auto

definition Field_numberEqnums :: "'n Field \<Rightarrow> error + 'n Field" where
  "Field_numberEqnums f =
     (case numberEqnums_outer f 0 (Field_nfens f) (Field_dim f)
             (array2d (Field_nfens f) (Field_dim f) INVALID_EQUATION_NUM) 0 of
        Inl e \<Rightarrow> Inl e
      | Inr (eqs, cnt) \<Rightarrow> Inr (f\<lparr>f_eqnums := Some eqs, f_neqns := cnt\<rparr>))"

text \<open>
  \<open>neqns()\<close> and \<open>eqnum(index, direction)\<close> number the equations on first demand and
  read the cached table afterwards; they return their result together with the field as
  the call leaves it.
\<close>

definition Field_neqns :: "'n Field \<Rightarrow> error + (int \<times> 'n Field)" where
  "Field_neqns f =
     (case f_eqnums f of
        Some _ \<Rightarrow> Inr (f_neqns f, f)
      | None \<Rightarrow>
          (case Field_numberEqnums f of
             Inl e \<Rightarrow> Inl e
           | Inr f' \<Rightarrow> Inr (f_neqns f', f')))"

definition Field_eqnum :: "'n Field \<Rightarrow> nat \<Rightarrow> nat \<Rightarrow> error + (int jsval \<times> 'n Field)" where
  "Field_eqnum f index direction =
     (case (case f_eqnums f of Some _ \<Rightarrow> Inr f | None \<Rightarrow> Field_numberEqnums f) of
        Inl e \<Rightarrow> Inl e
      | Inr f' \<Rightarrow>
          if index < 0 \<or> index \<ge> Field_nfens f' then Inl IndexOutOfRangeError
          else if direction < 0 \<or> direction \<ge> Field_dim f' then Inl IndexOutOfRangeError
          else
            (case f_eqnums f' of
               None \<Rightarrow> Inl TypeError
             | Some eqs \<Rightarrow>
                 if index < length eqs then Inr (js_nth (eqs ! index) direction, f')
                 else Inl TypeError))"

text \<open>
  \<open>vec[en]\<close> for an equation number \<open>en\<close>: \<open>undefined\<close> outside the vector.
\<close>

definition js_nth_int :: "'a list \<Rightarrow> int \<Rightarrow> 'a jsval" where
  "js_nth_int xs k = (if 0 \<le> k \<and> k < int (length xs) then Val (xs ! nat k) else Undefined)"

text \<open>
  An assignment \<open>xs[k] = v\<close>: JavaScript grows the array when \<open>k\<close> is past its end,
  leaving holes in between; \<open>hole\<close> is what a hole reads as.
\<close>

definition js_set :: "'a \<Rightarrow> 'a list \<Rightarrow> nat \<Rightarrow> 'a \<Rightarrow> 'a list" where
  "js_set hole xs k v =
     (if k < length xs then xs[k := v] else xs @ replicate (k - length xs) hole @ [v])"

text \<open>
  \<open>setPrescribedValue_(index, dir, val)\<close>, statement by statement. Writing into a row of a
  table that is \<open>null\<close>, or into a row that does not exist, is a TypeError. A hole of the
  boolean table reads \<open>undefined\<close>, which every reader of the table treats as \<open>false\<close>.
  When a later statement throws, the caller sees the exception: the result is the error.
\<close>

definition Field_setPrescribedValue ::
  "'n Field \<Rightarrow> nat \<Rightarrow> nat \<Rightarrow> 'n \<Rightarrow> error + 'n Field" where
  "Field_setPrescribedValue f index dir val =
     (case f_prescribed f of
        None \<Rightarrow> Inl TypeError
      | Some p \<Rightarrow>
          if \<not> index < length p then Inl TypeError
          else
            (case f_prescribedValues f of
               None \<Rightarrow> Inl TypeError
             | Some pv \<Rightarrow>
                 if \<not> index < length pv then Inl TypeError
                 else
                   (case PointSet_setAtDir (f_values f) index dir (Val val) of
                      Inl e \<Rightarrow> Inl e
                    | Inr vs \<Rightarrow>
                        Inr (f\<lparr>f_prescribed := Some (p[index := js_set False (p ! index) dir True]),
                               f_prescribedValues :=
                                 Some (pv[index := js_set Undefined (pv ! index) dir (Val val)]),
                               f_values := vs\<rparr>))))"

text \<open>
  The two nested loops of \<open>scatterSystemVector_\<close>. \<open>eqnums[i]\<close> missing is a TypeError
  at \<open>eqnums[i][j]\<close>; a missing column gives \<open>undefined\<close>, which is not the invalid
  marker, so \<open>vec[undefined]\<close>, again \<open>undefined\<close>, is written.
\<close>

function scatter_inner ::
  "int list list \<Rightarrow> 'n list \<Rightarrow> nat \<Rightarrow> nat \<Rightarrow> nat \<Rightarrow> 'n PointSet \<Rightarrow> error + 'n PointSet" where
  "scatter_inner eqs vec i j d vals =
     (if j < d then
        (if \<not> i < length eqs then Inl TypeError
         else
           (case js_nth (eqs ! i) j of
              Undefined \<Rightarrow>
                (case PointSet_setAtDir vals i j Undefined of
                   Inl e \<Rightarrow> Inl e
                 | Inr vals' \<Rightarrow> scatter_inner eqs vec i (Suc j) d vals')
            | Val en \<Rightarrow>
                if en \<noteq> INVALID_EQUATION_NUM then
                  (case PointSet_setAtDir vals i j (js_nth_int vec en) of
                     Inl e \<Rightarrow> Inl e
                   | Inr vals' \<Rightarrow> scatter_inner eqs vec i (Suc j) d vals')
                else scatter_inner eqs vec i (Suc j) d vals))
      else Inr vals)"
  by pat_completeness auto
termination
  by (relation "measure (\<lambda>(eqs, vec, i, j, d, vals). d - j)") auto

function scatter_outer ::
  "int list list \<Rightarrow> 'n list \<Rightarrow> nat \<Rightarrow> nat \<Rightarrow> nat \<Rightarrow> 'n PointSet \<Rightarrow> error + 'n PointSet" where
  "scatter_outer eqs vec i n d vals =
     (if i < n then
        (case scatter_inner eqs vec i 0 d vals of
           Inl e \<Rightarrow> Inl e
         | Inr vals' \<Rightarrow> scatter_outer eqs vec (Suc i) n d vals')
      else Inr vals)"
  by pat_completeness auto
termination
  by (relation "measure (\<lambda>(eqs, vec, i, n, d, vals). n - i)") auto

definition Field_scatterSystemVector :: "'n Field \<Rightarrow> 'n list \<Rightarrow> error + 'n Field" where
  "Field_scatterSystemVector f vec =
     (case Field_neqns f of
        Inl e \<Rightarrow> Inl e
      | Inr (neqns, f1) \<Rightarrow>
          if \<not> isVectorOfDimension vec neqns then Inl DimensionMismatchError
          else
            (case (case f_eqnums f1 of Some _ \<Rightarrow> Inr f1 | None \<Rightarrow> Field_numberEqnums f1) of
               Inl e \<Rightarrow> Inl e
             | Inr f2 \<Rightarrow>
                 (case f_eqnums f2 of
                    None \<Rightarrow> Inl TypeError
                  | Some eqs \<Rightarrow>
                      (case scatter_outer eqs vec 0 (Field_nfens f2) (Field_dim f2) (f_values f2) of
                         Inl e \<Rightarrow> Inl e
                       | Inr vals \<Rightarrow> Inr (f2\<lparr>f_values := vals\<rparr>)))))"

subsection \<open>Well-formed fields\<close>

text \<open>
  The prescribed table as \<open>isPrescribed\<close> reads it: the table the constructor built with
  \<open>array2d(nfens, dim, false)\<close>, or all \<open>false\<close> when the field has none.
\<close>

definition prescribedTable :: "'n Field \<Rightarrow> bool list list" where
  "prescribedTable f =
     (case f_prescribed f of
        None \<Rightarrow> array2d (Field_nfens f) (Field_dim f) False
      | Some p \<Rightarrow> p)"

text \<open>
  The constructor builds both prescribed tables with the shape \<open>nfens\<close> by \<open>dim\<close>, and
  every node of the container has \<open>dim\<close> components.
\<close>

definition Field_shape :: "'n Field \<Rightarrow> bool" where
  "Field_shape f =
     (case f_prescribed f of
        None \<Rightarrow> True
      | Some p \<Rightarrow> length p = Field_nfens f \<and> (\<forall>r \<in> set p. length r = Field_dim f))"

definition values_shape :: "'n Field \<Rightarrow> bool" where
  "values_shape f = (\<forall>r \<in> set (points (f_values f)). length r = rn (f_values f))"

definition prescribedValues_shape :: "'n Field \<Rightarrow> bool" where
  "prescribedValues_shape f =
     (case f_prescribed f of
        None \<Rightarrow> True
      | Some p \<Rightarrow>
          (case f_prescribedValues f of
             None \<Rightarrow> False
           | Some pv \<Rightarrow> length pv = Field_nfens f \<and> (\<forall>r \<in> set pv. length r = Field_dim f)))"

text \<open>
  The cached numbering, when there is one, is the numbering of the prescribed table the
  field has now (the invariant of section 3 of the specification).
\<close>

definition Field_numbered :: "'n Field \<Rightarrow> bool" where
  "Field_numbered f = (f_eqnums f = None \<or> Field_numberEqnums f = Inr f)"

text \<open>The well-formed fields: the three conditions together.\<close>

definition Field_inv :: "'n Field \<Rightarrow> bool" where
  "Field_inv f = (Field_shape f \<and> values_shape f \<and> Field_numbered f)"

text \<open>Sample fields: two nodes of two components, the second component of node 0 prescribed.\<close>

definition sampleField :: "real Field" where
  "sampleField =
     \<lparr>f_values = \<lparr>rn = 2, points = [[Val 1, Val 7], [Val 3, Val 4]]\<rparr>,
      f_prescribed = Some [[False, True], [False, False]],
      f_prescribedValues = Some [[Val 0, Val 7], [Val 0, Val 0]],
      f_eqnums = None,
      f_neqns = - 1\<rparr>"

definition sampleFieldNumbered :: "real Field" where
  "sampleFieldNumbered = sampleField\<lparr>f_eqnums := Some [[0, - 1], [1, 2]], f_neqns := 3\<rparr>"

text \<open>The numbered sample after \<open>setPrescribedValue_(0, 0, 5)\<close>.\<close>

definition sampleFieldMutated :: "real Field" where
  "sampleFieldMutated =
     \<lparr>f_values = \<lparr>rn = 2, points = [[Val 5, Val 7], [Val 3, Val 4]]\<rparr>,
      f_prescribed = Some [[True, True], [False, False]],
      f_prescribedValues = Some [[Val 5, Val 7], [Val 0, Val 0]],
      f_eqnums = Some [[0, - 1], [1, 2]],
      f_neqns = 3\<rparr>"

subsection \<open>Row-major numbering, stated on lists\<close>

text \<open>
  What the two loops compute, as functions on the rows of the prescribed table: a
  prescribed entry gets the invalid marker, a free one the running count.
\<close>

fun number_from :: "int \<Rightarrow> bool list \<Rightarrow> int list" where
  "number_from c [] = []"
| "number_from c (b # bs) = (if b then - 1 # number_from c bs else c # number_from (c + 1) bs)"

fun number_rows :: "int \<Rightarrow> bool list list \<Rightarrow> int list list" where
  "number_rows c [] = []"
| "number_rows c (r # rs) = number_from c r # number_rows (c + int (length (filter Not r))) rs"

definition presc :: "'n Field \<Rightarrow> nat \<Rightarrow> nat \<Rightarrow> bool" where
  "presc f i j = (case Field_isPrescribed f i j of Inl e \<Rightarrow> False | Inr p \<Rightarrow> truthy p)"

definition row_ok :: "'n Field \<Rightarrow> nat \<Rightarrow> bool" where
  "row_ok f i = (case f_prescribed f of None \<Rightarrow> True | Some p \<Rightarrow> i < length p)"

section \<open>Numbers and the numeric layer\<close>

text \<open>
  A JavaScript number is modelled as a real, computed with exactly, or \<open>NaN\<close>, which is
  what arithmetic on \<open>undefined\<close> or on an array of several elements gives. Rounding to
  binary64 is left out here; the last section evaluates the \<open>Q4\<close> shape functions in
  binary64.
\<close>

datatype jsnum = Num real | NaN

fun to_num :: "real jsval \<Rightarrow> jsnum" where
  "to_num (Val r) = Num r"
| "to_num Undefined = NaN"

fun jsub :: "jsnum \<Rightarrow> jsnum \<Rightarrow> jsnum" where
  "jsub (Num a) (Num b) = Num (a - b)"
| "jsub _ _ = NaN"

fun jadd :: "jsnum \<Rightarrow> jsnum \<Rightarrow> jsnum" where
  "jadd (Num a) (Num b) = Num (a + b)"
| "jadd _ _ = NaN"

fun jmul :: "jsnum \<Rightarrow> jsnum \<Rightarrow> jsnum" where
  "jmul (Num a) (Num b) = Num (a * b)"
| "jmul _ _ = NaN"

fun jneg :: "jsnum \<Rightarrow> jsnum" where
  "jneg (Num a) = Num (- a)"
| "jneg NaN = NaN"

text \<open>
  An array used as an operand of \<open>*\<close> is converted through its string form: the empty
  array is 0, a one-element array is its element, a longer one is NaN.
\<close>

fun array_to_num :: "real list \<Rightarrow> jsnum" where
  "array_to_num [] = Num 0"
| "array_to_num [a] = Num a"
| "array_to_num _ = NaN"

text \<open>
  Modelled from the spec: \<open>core.numeric\<close> and \<open>feutils\<close> are not among the sources.
  Section 6 of the specification names the primitives: transpose, multiply, dot,
  cross product (\<open>skewmat\<close>) and Euclidean norm. A matrix is the \<open>GCellSet~Matrix\<close> of
  the JSDoc: at least one row, all rows of one non-zero length; an argument of another
  shape is an \<open>InvalidInputError\<close> (section 7). \<open>nthColumn(J, k)\<close> counts columns from 1:
  \<open>jacobianSurface\<close> asks for columns 1 and 2 of a matrix of two columns.
\<close>

definition is_matrix :: "real list list \<Rightarrow> bool" where
  "is_matrix m = (m \<noteq> [] \<and> hd m \<noteq> [] \<and> (\<forall>r \<in> set m. length r = length (hd m)))"

definition numeric_size :: "real list list \<Rightarrow> nat \<times> nat jsval" where
  "numeric_size m = (length m, (case m of [] \<Rightarrow> Undefined | r # _ \<Rightarrow> Val (length r)))"

definition numeric_transpose :: "real list list \<Rightarrow> error + real list list" where
  "numeric_transpose m = (if is_matrix m then Inr (transpose m) else Inl InvalidInputError)"

definition numeric_norm :: "real list \<Rightarrow> real" where
  "numeric_norm v = sqrt (sum_list (map (\<lambda>a. a * a) v))"

definition inner_prod :: "real list \<Rightarrow> real list \<Rightarrow> real" where
  "inner_prod u v = sum_list (map2 (*) u v)"

definition numeric_mul :: "real list list \<Rightarrow> real list list \<Rightarrow> error + real list list" where
  "numeric_mul a b =
     (if is_matrix a \<and> is_matrix b \<and> length (hd a) = length b
      then Inr (map (\<lambda>r. map (inner_prod r) (transpose b)) a)
      else Inl InvalidInputError)"

text \<open>\<open>dot\<close> is called with a matrix and a vector, and with two matrices.\<close>

definition numeric_dot_vec :: "real list list \<Rightarrow> real list \<Rightarrow> error + real list" where
  "numeric_dot_vec a v =
     (if is_matrix a \<and> length (hd a) = length v
      then Inr (map (\<lambda>r. inner_prod r v) a)
      else Inl InvalidInputError)"

definition numeric_dot :: "real list list \<Rightarrow> real list list \<Rightarrow> error + real list list" where
  "numeric_dot a b = numeric_mul a b"

definition numeric_nthColumn :: "real list list \<Rightarrow> nat \<Rightarrow> error + real list" where
  "numeric_nthColumn m k =
     (if is_matrix m \<and> 1 \<le> k \<and> k \<le> length (hd m)
      then Inr (map (\<lambda>r. r ! (k - 1)) m)
      else Inl InvalidInputError)"

fun feutils_skewmat :: "real list \<Rightarrow> error + real list list" where
  "feutils_skewmat [a, b, c] = Inr [[0, - c, b], [c, 0, - a], [- b, a, 0]]"
| "feutils_skewmat _ = Inl InvalidInputError"

text \<open>
  Modelled from the spec: \<open>assert.vectorOfDimension(n)\<close> of \<open>core.utils\<close> accepts the
  arrays of \<open>n\<close> numbers.
\<close>

definition vectorOfDimension :: "nat \<Rightarrow> real list \<Rightarrow> bool" where
  "vectorOfDimension n v = (length v = n)"

section \<open>Topology\<close>

text \<open>
  Modelled from the spec: \<open>geometry.topology\<close> is not among the sources. Sections 3 and
  4.1 of the specification: a Topology has a top dimension \<open>D\<close> and, for each dimension
  \<open>0..D\<close>, an ordered sequence of cells; the cells at \<open>D\<close> are the input connectivity,
  the cells below are the faces of the cells above, without duplicates (two faces are
  the same when they have the same set of points), in first-seen order. The faces of a
  line are its two end points, the faces of a quad its four sides in order
  (\<open>subdivideQ4\<close> of \<open>mesh.js\<close> looks the sides \<open>n1 n2\<close>, \<open>n2 n3\<close>, \<open>n3 n4\<close>, \<open>n4 n1\<close> up
  among the edges). The construction fails with \<open>InvalidTopologyError\<close> when a row is
  not a tuple or the rows differ in length; dimensions above 2 are not modelled. The
  object has the attributes and accessors listed there, and no other.
\<close>

record Topology =
  t_dim :: nat
  t_cells :: "nat list list list"

fun cell_faces :: "nat \<Rightarrow> nat list \<Rightarrow> nat list list" where
  "cell_faces (Suc 0) c = map (\<lambda>v. [v]) c"
| "cell_faces (Suc (Suc 0)) [a, b, c, d] = [[a, b], [b, c], [c, d], [d, a]]"
| "cell_faces _ _ = []"

definition same_cell :: "nat list \<Rightarrow> nat list \<Rightarrow> bool" where
  "same_cell a b = (list_all (\<lambda>v. v \<in> set b) a \<and> list_all (\<lambda>v. v \<in> set a) b)"

fun dedup_cells :: "nat list list \<Rightarrow> nat list list \<Rightarrow> nat list list" where
  "dedup_cells seen [] = seen"
| "dedup_cells seen (c # cs) =
     (if list_ex (same_cell c) seen then dedup_cells seen cs else dedup_cells (seen @ [c]) cs)"

fun derive_cells :: "nat \<Rightarrow> nat list list \<Rightarrow> nat list list list" where
  "derive_cells 0 cs = [cs]"
| "derive_cells (Suc k) cs =
     derive_cells k (dedup_cells [] (concat (map (cell_faces (Suc k)) cs))) @ [cs]"

fun defined_rows :: "'a jsval list \<Rightarrow> 'a list option" where
  "defined_rows [] = Some []"
| "defined_rows (Undefined # rs) = None"
| "defined_rows (Val r # rs) = (case defined_rows rs of None \<Rightarrow> None | Some rs' \<Rightarrow> Some (r # rs'))"

definition hypercube :: "nat list jsval list \<Rightarrow> nat \<Rightarrow> error + Topology" where
  "hypercube conn D =
     (case defined_rows conn of
        None \<Rightarrow> Inl InvalidTopologyError
      | Some rows \<Rightarrow>
          if 2 < D \<or> (\<exists>r \<in> set rows. length r \<noteq> length (hd rows)) then Inl InvalidTopologyError
          else Inr \<lparr>t_dim = D, t_cells = derive_cells D rows\<rparr>)"

definition Topology_getDim :: "Topology \<Rightarrow> nat" where
  "Topology_getDim t = t_dim t"

definition Topology_getCellsInDim :: "Topology \<Rightarrow> nat \<Rightarrow> nat list list" where
  "Topology_getCellsInDim t k = (if k < length (t_cells t) then t_cells t ! k else [])"

definition Topology_getMaxCells :: "Topology \<Rightarrow> nat list list" where
  "Topology_getMaxCells t = Topology_getCellsInDim t (Topology_getDim t)"


definition Topology_getCellSizeInDim :: "Topology \<Rightarrow> nat \<Rightarrow> nat jsval" where
  "Topology_getCellSizeInDim t k =
     (case Topology_getCellsInDim t k of [] \<Rightarrow> Undefined | c # _ \<Rightarrow> Val (length c))"

text \<open>
  \<open>boundary()\<close>: the topology of dimension \<open>D - 1\<close> made of the faces that belong to
  exactly one top cell.
\<close>

definition Topology_boundary :: "Topology \<Rightarrow> error + Topology" where
  "Topology_boundary t =
     (if Topology_getDim t = 0 then Inl InvalidTopologyError
      else
        (let D = Topology_getDim t;
             faces = concat (map (cell_faces D) (Topology_getMaxCells t));
             once = filter (\<lambda>c. length (filter (same_cell c) faces) = 1)
                      (Topology_getCellsInDim t (D - 1))
         in Inr \<lparr>t_dim = D - 1, t_cells = derive_cells (D - 1) once\<rparr>))"

section \<open>Geometry cell sets: the state of \<open>gcellset.js\<close>\<close>

text \<open>
  The concrete classes of the file are \<open>L2\<close> (a \<open>Manifold1GCellSet\<close>) and \<open>Q4\<close> (a
  \<open>Manifold2GCellSet\<close>); the methods every class overrides dispatch on the tag.
  \<open>otherDimension\<close> is a number or a function of the connectivity, the basis function
  values and the coordinates. The result of \<open>uuid()\<close> is an argument of the constructors.
\<close>

datatype gcelltype = L2 | Q4

datatype otherDim =
    OdNumber real
  | OdFunction "nat list \<Rightarrow> real list list \<Rightarrow> real list list \<Rightarrow> real"

record GCellSet =
  g_type :: gcelltype
  g_axisSymm :: bool
  g_otherDimension :: otherDim
  g_id :: string
  g_topology :: Topology

text \<open>
  The option object of the constructors; \<open>None\<close> is a property that is not there. The
  rows of \<open>conn\<close> may be \<open>undefined\<close>: \<open>subset\<close> builds such lists.
\<close>

record InitOption =
  o_conn :: "nat list jsval list option"
  o_otherDimension :: "otherDim option"
  o_axisSymm :: "bool option"

text \<open>
  What a constructor may be called with: nothing, an option object, or, as \<open>boundary()\<close>
  does, a Topology.
\<close>

datatype ctor_arg = NoArgument | Options InitOption | TopologyObject Topology

fun GCellSet_dim :: "gcelltype \<Rightarrow> nat" where
  "GCellSet_dim L2 = 1"
| "GCellSet_dim Q4 = 2"

fun GCellSet_cellSize :: "gcelltype \<Rightarrow> nat" where
  "GCellSet_cellSize L2 = 2"
| "GCellSet_cellSize Q4 = 4"

fun GCellSet_type :: "gcelltype \<Rightarrow> string" where
  "GCellSet_type L2 = ''L2''"
| "GCellSet_type Q4 = ''Q4''"

text \<open>
  The base constructor, reached from \<open>L2\<close> and \<open>Q4\<close> with \<open>options.topology\<close> set to the
  hypercube they built, so its first test passes.
\<close>

definition GCellSet_new :: "gcelltype \<Rightarrow> string \<Rightarrow> InitOption \<Rightarrow> Topology \<Rightarrow> error + GCellSet" where
  "GCellSet_new ty uid opts topology =
     (let otherDimension = (case o_otherDimension opts of Some od \<Rightarrow> od | None \<Rightarrow> OdNumber 1);
          axisSymm = (case o_axisSymm opts of Some b \<Rightarrow> b | None \<Rightarrow> False)
      in if Topology_getCellSizeInDim topology (Topology_getDim topology) \<noteq> Val (GCellSet_cellSize ty)
         then Inl DimensionMismatchError
         else if Topology_getDim topology \<noteq> GCellSet_dim ty then Inl DimensionMismatchError
         else Inr \<lparr>g_type = ty, g_axisSymm = axisSymm, g_otherDimension = otherDimension,
                    g_id = uid, g_topology = topology\<rparr>)"

text \<open>
  \<open>L2\<close> and \<open>Q4\<close>: \<open>if (!options || !options.conn) throw\<close>, then the hypercube of
  \<open>options.conn\<close>. A Topology has no \<open>conn\<close> property.
\<close>

definition L2_new :: "string \<Rightarrow> ctor_arg \<Rightarrow> error + GCellSet" where
  "L2_new uid arg =
     (case arg of
        Options opts \<Rightarrow>
          (case o_conn opts of
             None \<Rightarrow> Inl InvalidInputError
           | Some conn \<Rightarrow>
               (case hypercube conn 1 of
                  Inl e \<Rightarrow> Inl e
                | Inr topology \<Rightarrow> GCellSet_new L2 uid opts topology))
      | _ \<Rightarrow> Inl InvalidInputError)"

definition Q4_new :: "string \<Rightarrow> ctor_arg \<Rightarrow> error + GCellSet" where
  "Q4_new uid arg =
     (case arg of
        Options opts \<Rightarrow>
          (case o_conn opts of
             None \<Rightarrow> Inl InvalidInputError
           | Some conn \<Rightarrow>
               (case hypercube conn 2 of
                  Inl e \<Rightarrow> Inl e
                | Inr topology \<Rightarrow> GCellSet_new Q4 uid opts topology))
      | _ \<Rightarrow> Inl InvalidInputError)"

fun gcell_new :: "gcelltype \<Rightarrow> string \<Rightarrow> ctor_arg \<Rightarrow> error + GCellSet" where
  "gcell_new L2 uid arg = L2_new uid arg"
| "gcell_new Q4 uid arg = Q4_new uid arg"

definition GCellSet_topology :: "GCellSet \<Rightarrow> Topology" where
  "GCellSet_topology g = g_topology g"

definition GCellSet_axisSymm :: "GCellSet \<Rightarrow> bool" where
  "GCellSet_axisSymm g = g_axisSymm g"

definition GCellSet_otherDimension ::
  "GCellSet \<Rightarrow> nat list \<Rightarrow> real list list \<Rightarrow> real list list \<Rightarrow> real" where
  "GCellSet_otherDimension g conn N x =
     (case g_otherDimension g of OdFunction h \<Rightarrow> h conn N x | OdNumber r \<Rightarrow> r)"

definition GCellSet_edges :: "GCellSet \<Rightarrow> nat list list" where
  "GCellSet_edges g = Topology_getCellsInDim (g_topology g) 1"



text \<open>
  \<open>boundaryGCellSetConstructor\<close>: \<open>Q4\<close> answers \<open>L2\<close>; \<open>L2\<close> answers \<open>P1\<close>, a name the
  file does not define, which is a ReferenceError when the method runs.
\<close>

datatype boundary_ctor = Ctor gcelltype | UndefinedName

fun GCellSet_boundaryGCellSetConstructor :: "gcelltype \<Rightarrow> boundary_ctor" where
  "GCellSet_boundaryGCellSetConstructor Q4 = Ctor L2"
| "GCellSet_boundaryGCellSetConstructor L2 = UndefinedName"

text \<open>\<open>boundary()\<close>: \<open>new C(boundaryTopology)\<close>, the constructor called with the Topology.\<close>

definition GCellSet_boundary :: "string \<Rightarrow> GCellSet \<Rightarrow> error + GCellSet" where
  "GCellSet_boundary uid g =
     (case GCellSet_boundaryGCellSetConstructor (g_type g) of
        UndefinedName \<Rightarrow> Inl ReferenceError
      | Ctor C \<Rightarrow>
          (case Topology_boundary (g_topology g) of
             Inl e \<Rightarrow> Inl e
           | Inr boundaryTopology \<Rightarrow> gcell_new C uid (TopologyObject boundaryTopology)))"





text \<open>
  What the constructors establish: the topology has the dimension of the class, one
  sequence of cells for each dimension, at least one top cell, and every top cell has
  the cell size of the class.
\<close>

definition GCellSet_inv :: "GCellSet \<Rightarrow> bool" where
  "GCellSet_inv g =
     (t_dim (g_topology g) = GCellSet_dim (g_type g)
      \<and> length (t_cells (g_topology g)) = Suc (t_dim (g_topology g))
      \<and> t_cells (g_topology g) ! t_dim (g_topology g) \<noteq> []
      \<and> (\<forall>c \<in> set (t_cells (g_topology g) ! t_dim (g_topology g)).
            length c = GCellSet_cellSize (g_type g)))"

section \<open>Jacobians\<close>

text \<open>
  \<open>Manifold1GCellSet\<close>. \<open>transpose(J)[0]\<close> is the first row of the transpose, the single
  tangent column of \<open>J\<close>.
\<close>

definition Manifold1GCellSet_jacobianCurve ::
  "GCellSet \<Rightarrow> nat list \<Rightarrow> real list list \<Rightarrow> real list list \<Rightarrow> real list list \<Rightarrow> error + jsnum" where
  "Manifold1GCellSet_jacobianCurve g conn N J x =
     (case numeric_transpose J of
        Inl e \<Rightarrow> Inl e
      | Inr Jt \<Rightarrow>
          (case Jt of
             [] \<Rightarrow> Inl InvalidInputError
           | vec # _ \<Rightarrow> Inr (Num (numeric_norm vec))))"

text \<open>\<open>mul(transpose(N), x)[0]\<close>: the first row of the product.\<close>

definition first_row_of_product ::
  "real list list \<Rightarrow> real list list \<Rightarrow> error + real list" where
  "first_row_of_product N x =
     (case numeric_transpose N of
        Inl e \<Rightarrow> Inl e
      | Inr Nt \<Rightarrow>
          (case numeric_mul Nt x of
             Inl e \<Rightarrow> Inl e
           | Inr [] \<Rightarrow> Inl TypeError
           | Inr (xyz # _) \<Rightarrow> Inr xyz))"

definition Manifold1GCellSet_jacobianSurface ::
  "GCellSet \<Rightarrow> nat list \<Rightarrow> real list list \<Rightarrow> real list list \<Rightarrow> real list list \<Rightarrow> error + jsnum" where
  "Manifold1GCellSet_jacobianSurface g conn N J x =
     (if GCellSet_axisSymm g then
        (case first_row_of_product N x of
           Inl e \<Rightarrow> Inl e
         | Inr xyz \<Rightarrow>
             (case Manifold1GCellSet_jacobianCurve g conn N J x of
                Inl e \<Rightarrow> Inl e
              | Inr curve \<Rightarrow> Inr (jmul (jmul (jmul curve (Num 2)) (Num pi)) (to_num (js_nth xyz 0)))))
      else
        (case Manifold1GCellSet_jacobianCurve g conn N J x of
           Inl e \<Rightarrow> Inl e
         | Inr curve \<Rightarrow> Inr (jmul curve (Num (GCellSet_otherDimension g conn N x)))))"

definition Manifold1GCellSet_jacobianVolumn ::
  "GCellSet \<Rightarrow> nat list \<Rightarrow> real list list \<Rightarrow> real list list \<Rightarrow> real list list \<Rightarrow> error + jsnum" where
  "Manifold1GCellSet_jacobianVolumn g conn N J x =
     (if GCellSet_axisSymm g then
        (case first_row_of_product N x of
           Inl e \<Rightarrow> Inl e
         | Inr xyz \<Rightarrow>
             (case Manifold1GCellSet_jacobianCurve g conn N J x of
                Inl e \<Rightarrow> Inl e
              | Inr curve \<Rightarrow>
                  Inr (jmul (jmul (jmul (jmul curve (Num 2)) (Num pi)) (to_num (js_nth xyz 0)))
                         (Num (GCellSet_otherDimension g conn N x)))))
      else
        (case Manifold1GCellSet_jacobianCurve g conn N J x of
           Inl e \<Rightarrow> Inl e
         | Inr curve \<Rightarrow> Inr (jmul curve (Num (GCellSet_otherDimension g conn N x)))))"

definition Manifold1GCellSet_jacobianInDim ::
  "GCellSet \<Rightarrow> nat list \<Rightarrow> real list list \<Rightarrow> real list list \<Rightarrow> real list list \<Rightarrow> int \<Rightarrow> error + jsnum" where
  "Manifold1GCellSet_jacobianInDim g conn N J x dm =
     (if dm = 3 then Manifold1GCellSet_jacobianVolumn g conn N J x
      else if dm = 2 then Manifold1GCellSet_jacobianSurface g conn N J x
      else if dm = 1 then Manifold1GCellSet_jacobianCurve g conn N J x
      else Inl UnsupportedDimensionError)"

text \<open>
  \<open>Manifold2GCellSet\<close>. \<open>size(J)\<close> gives the number of rows and the length of the first
  row; with two rows of two entries the determinant is written out on the entries.
\<close>

definition Manifold2GCellSet_jacobianSurface ::
  "GCellSet \<Rightarrow> nat list \<Rightarrow> real list list \<Rightarrow> real list list \<Rightarrow> real list list \<Rightarrow> error + jsnum" where
  "Manifold2GCellSet_jacobianSurface g conn N J x =
     (let tmp = numeric_size J; sdim = fst tmp; ntan = snd tmp
      in if ntan = Val 2 then
           (if Val sdim = ntan then
              Inr (jsub (jmul (to_num (js_nth (J ! 0) 0)) (to_num (js_nth (J ! 1) 1)))
                        (jmul (to_num (js_nth (J ! 1) 0)) (to_num (js_nth (J ! 0) 1))))
            else
              (case numeric_nthColumn J 1 of
                 Inl e \<Rightarrow> Inl e
               | Inr c1 \<Rightarrow>
                   (case feutils_skewmat c1 of
                      Inl e \<Rightarrow> Inl e
                    | Inr skew \<Rightarrow>
                        (case numeric_nthColumn J 2 of
                           Inl e \<Rightarrow> Inl e
                         | Inr c2 \<Rightarrow>
                             (case numeric_dot_vec skew c2 of
                                Inl e \<Rightarrow> Inl e
                              | Inr w \<Rightarrow> Inr (Num (numeric_norm w)))))))
         else Inl NotImplementedError)"

text \<open>
  In the axially symmetric branch \<open>xyz\<close> is the whole product \<open>dot(transpose(N), x)\<close>, so
  \<open>xyz[0]\<close> is its first row, an array.
\<close>

definition Manifold2GCellSet_jacobianVolumn ::
  "GCellSet \<Rightarrow> nat list \<Rightarrow> real list list \<Rightarrow> real list list \<Rightarrow> real list list \<Rightarrow> error + jsnum" where
  "Manifold2GCellSet_jacobianVolumn g conn N J x =
     (if GCellSet_axisSymm g then
        (case numeric_transpose N of
           Inl e \<Rightarrow> Inl e
         | Inr Nt \<Rightarrow>
             (case numeric_dot Nt x of
                Inl e \<Rightarrow> Inl e
              | Inr xyz \<Rightarrow>
                  (case Manifold2GCellSet_jacobianSurface g conn N J x of
                     Inl e \<Rightarrow> Inl e
                   | Inr surface \<Rightarrow>
                       Inr (jmul (jmul (jmul surface (Num 2)) (Num pi))
                              (case xyz of [] \<Rightarrow> NaN | row # _ \<Rightarrow> array_to_num row)))))
      else
        (case Manifold2GCellSet_jacobianSurface g conn N J x of
           Inl e \<Rightarrow> Inl e
         | Inr surface \<Rightarrow> Inr (jmul surface (Num (GCellSet_otherDimension g conn N x)))))"

definition Manifold2GCellSet_jacobianInDim ::
  "GCellSet \<Rightarrow> nat list \<Rightarrow> real list list \<Rightarrow> real list list \<Rightarrow> real list list \<Rightarrow> int \<Rightarrow> error + jsnum" where
  "Manifold2GCellSet_jacobianInDim g conn N J x dm =
     (if dm = 3 then Manifold2GCellSet_jacobianVolumn g conn N J x
      else if dm = 2 then Manifold2GCellSet_jacobianSurface g conn N J x
      else Inl UnsupportedDimensionError)"

section \<open>Shape functions\<close>

text \<open>
  \<open>L2\<close> checks its argument with the contract \<open>vectorOfDimension(1)\<close> before it reads
  \<open>paramCoords[0]\<close>; \<open>Q4\<close> reads \<open>paramCoords[0]\<close> and \<open>paramCoords[1]\<close> directly.
\<close>

definition L2_bfun :: "real list \<Rightarrow> error + jsnum list list" where
  "L2_bfun paramCoords =
     (if \<not> vectorOfDimension 1 paramCoords then Inl InvalidInputError
      else
        (let x = to_num (js_nth paramCoords 0)
         in Inr [[jmul (Num 0.5) (jsub (Num 1) x)],
                 [jmul (Num 0.5) (jadd (Num 1) x)]]))"

definition L2_bfundpar :: "real list \<Rightarrow> error + jsnum list list" where
  "L2_bfundpar paramCoords =
     (if \<not> vectorOfDimension 1 paramCoords then Inl InvalidInputError
      else Inr [[Num (- 0.5)], [Num 0.5]])"

definition Q4_bfun :: "real list \<Rightarrow> error + jsnum list list" where
  "Q4_bfun paramCoords =
     (let one_minus_xi = jsub (Num 1) (to_num (js_nth paramCoords 0));
          one_plus_xi = jadd (Num 1) (to_num (js_nth paramCoords 0));
          one_minus_eta = jsub (Num 1) (to_num (js_nth paramCoords 1));
          one_plus_eta = jadd (Num 1) (to_num (js_nth paramCoords 1))
      in Inr [[jmul (jmul (Num 0.25) one_minus_xi) one_minus_eta],
              [jmul (jmul (Num 0.25) one_plus_xi) one_minus_eta],
              [jmul (jmul (Num 0.25) one_plus_xi) one_plus_eta],
              [jmul (jmul (Num 0.25) one_minus_xi) one_plus_eta]])"

definition Q4_bfundpar :: "real list \<Rightarrow> error + jsnum list list" where
  "Q4_bfundpar paramCoords =
     (let xi = to_num (js_nth paramCoords 0); eta = to_num (js_nth paramCoords 1)
      in Inr [[jmul (jneg (jsub (Num 1) eta)) (Num 0.25), jmul (jneg (jsub (Num 1) xi)) (Num 0.25)],
              [jmul (jsub (Num 1) eta) (Num 0.25), jmul (jneg (jadd (Num 1) xi)) (Num 0.25)],
              [jmul (jadd (Num 1) eta) (Num 0.25), jmul (jadd (Num 1) xi) (Num 0.25)],
              [jmul (jneg (jadd (Num 1) eta)) (Num 0.25), jmul (jsub (Num 1) xi) (Num 0.25)]])"


fun GCellSet_bfundpar :: "gcelltype \<Rightarrow> real list \<Rightarrow> error + jsnum list list" where
  "GCellSet_bfundpar L2 p = L2_bfundpar p"
| "GCellSet_bfundpar Q4 p = Q4_bfundpar p"


section \<open>Sample cell sets\<close>


definition oneQuadOptions :: InitOption where
  "oneQuadOptions = \<lparr>o_conn = Some [Val [0, 1, 2, 3]], o_otherDimension = None, o_axisSymm = None\<rparr>"

definition oneQuad :: GCellSet where
  "oneQuad =
     \<lparr>g_type = Q4, g_axisSymm = False, g_otherDimension = OdNumber 1, g_id = ''q'',
      g_topology =
        \<lparr>t_dim = 2,
         t_cells = [[[0], [1], [2], [3]], [[0, 1], [1, 2], [2, 3], [3, 0]], [[0, 1, 2, 3]]]\<rparr>\<rparr>"

section \<open>The Q4 shape functions in binary64\<close>














section \<open>Equation numbering\<close>

lemma isPrescribed_cases:
  assumes "row_ok f i"
  obtains p where "Field_isPrescribed f i j = Inr p" "truthy p = presc f i j"
  using assms by (auto simp: row_ok_def Field_isPrescribed_def presc_def split: option.splits)

text \<open>The inner loop, started at column \<open>j\<close> of a row whose remaining entries are still invalid.\<close>

lemma inner_result:
  assumes "row_ok f i" "i < length eqs" "length (eqs ! i) = d" "j \<le> d"
    and "\<forall>k. j \<le> k \<and> k < d \<longrightarrow> eqs ! i ! k = - 1"
  shows "numberEqnums_inner f i j d eqs cnt =
     Inr (eqs[i := take j (eqs ! i) @ number_from cnt (map (presc f i) [j..<d])],
          cnt + int (length (filter Not (map (presc f i) [j..<d]))))"
  using assms
proof (induction "d - j" arbitrary: j eqs cnt)
  case 0
  then show ?case by simp
next
  case (Suc m)
  then have jd: "j < d" by simp
  obtain p where p: "Field_isPrescribed f i j = Inr p" "truthy p = presc f i j"
    using isPrescribed_cases[OF Suc.prems(1)] by blast
  have up: "[j..<d] = j # [Suc j..<d]" using jd by (simp add: upt_conv_Cons)
  show ?case
  proof (cases "presc f i j")
    case True
    have "numberEqnums_inner f i j d eqs cnt = numberEqnums_inner f i (Suc j) d eqs cnt"
      using jd p True by simp
    also have "\<dots> = Inr (eqs[i := take (Suc j) (eqs ! i) @ number_from cnt (map (presc f i) [Suc j..<d])],
          cnt + int (length (filter Not (map (presc f i) [Suc j..<d]))))"
      using Suc.hyps(1)[of "Suc j" eqs cnt] Suc.hyps(2) Suc.prems jd by simp
    finally show ?thesis
      using True up jd Suc.prems by (simp add: take_Suc_conv_app_nth)
  next
    case False
    let ?eqs = "eqs[i := (eqs ! i)[j := cnt]]"
    have "numberEqnums_inner f i j d eqs cnt = numberEqnums_inner f i (Suc j) d ?eqs (cnt + 1)"
      using jd p False by simp
    also have "\<dots> = Inr (?eqs[i := take (Suc j) (?eqs ! i) @ number_from (cnt + 1) (map (presc f i) [Suc j..<d])],
          cnt + 1 + int (length (filter Not (map (presc f i) [Suc j..<d]))))"
      using Suc.hyps(1)[of "Suc j" ?eqs "cnt + 1"] Suc.hyps(2) Suc.prems jd by simp
    finally show ?thesis
      using False up jd Suc.prems by (simp add: take_Suc_conv_app_nth)
  qed
qed

text \<open>The outer loop, started at row \<open>i\<close> of a table whose remaining rows are still invalid.\<close>

lemma outer_result:
  assumes "\<forall>k<n. row_ok f k" "length eqs = n" "i \<le> n"
    and "\<forall>k. i \<le> k \<and> k < n \<longrightarrow> eqs ! k = replicate d (- 1)"
  shows "numberEqnums_outer f i n d eqs cnt =
     Inr (take i eqs @ number_rows cnt (map (\<lambda>k. map (presc f k) [0..<d]) [i..<n]),
          cnt + int (length (filter Not (concat (map (\<lambda>k. map (presc f k) [0..<d]) [i..<n])))))"
  using assms
proof (induction "n - i" arbitrary: i eqs cnt)
  case 0
  then show ?case by simp
next
  case (Suc m)
  then have lt: "i < n" by simp
  let ?row = "map (presc f i) [0..<d]"
  let ?eqs = "eqs[i := number_from cnt ?row]"
  let ?cnt = "cnt + int (length (filter Not ?row))"
  have up: "[i..<n] = i # [Suc i..<n]" using lt by (simp add: upt_conv_Cons)
  have inner: "numberEqnums_inner f i 0 d eqs cnt = Inr (?eqs, ?cnt)"
    using inner_result[of f i eqs d 0 cnt] Suc.prems lt by simp
  have "numberEqnums_outer f i n d eqs cnt = numberEqnums_outer f (Suc i) n d ?eqs ?cnt"
    using lt inner by simp
  also have "\<dots> = Inr (take (Suc i) ?eqs @ number_rows ?cnt (map (\<lambda>k. map (presc f k) [0..<d]) [Suc i..<n]),
          ?cnt + int (length (filter Not (concat (map (\<lambda>k. map (presc f k) [0..<d]) [Suc i..<n])))))"
    using Suc.hyps(1)[of "Suc i" ?eqs ?cnt] Suc.hyps(2) Suc.prems lt by simp
  finally show ?case
    using up lt Suc.prems(2) by (simp add: take_Suc_conv_app_nth)
qed

lemma length_number_from [simp]: "length (number_from c bs) = length bs"
  by (induction bs arbitrary: c) auto

lemma number_from_nth:
  "j < length bs \<Longrightarrow>
   number_from c bs ! j = (if bs ! j then - 1 else c + int (length (filter Not (take j bs))))"
proof (induction bs arbitrary: c j)
  case Nil
  then show ?case by simp
next
  case (Cons b bs)
  then show ?case by (cases j) auto
qed

lemma number_from_append:
  "number_from c (xs @ ys) = number_from c xs @ number_from (c + int (length (filter Not xs))) ys"
  by (induction xs arbitrary: c) (auto simp: algebra_simps)

lemma number_from_free:
  "0 \<le> c \<Longrightarrow>
   filter (\<lambda>e. e \<noteq> - 1) (number_from c bs) = map (\<lambda>k. c + int k) [0..<length (filter Not bs)]"
proof (induction bs arbitrary: c)
  case Nil
  then show ?case by simp
next
  case (Cons b bs)
  show ?case
  proof (cases b)
    case True
    then show ?thesis using Cons by simp
  next
    case False
    have "map (\<lambda>k. c + int k) [0..<Suc (length (filter Not bs))] =
          c # map (\<lambda>k. c + 1 + int k) [0..<length (filter Not bs)]"
      by (simp add: upt_conv_Cons map_Suc_upt[symmetric] del: upt_Suc)
    then show ?thesis using False Cons.IH[of "c + 1"] Cons.prems by simp
  qed
qed

lemma length_number_rows [simp]: "length (number_rows c rs) = length rs"
  by (induction rs arbitrary: c) auto

lemma concat_number_rows: "concat (number_rows c rs) = number_from c (concat rs)"
  by (induction rs arbitrary: c) (auto simp: number_from_append)

lemma number_rows_nth:
  "i < length rs \<Longrightarrow>
   number_rows c rs ! i = number_from (c + int (length (filter Not (concat (take i rs))))) (rs ! i)"
proof (induction rs arbitrary: c i)
  case Nil
  then show ?case by simp
next
  case (Cons r rs)
  then show ?case by (cases i) (auto simp: algebra_simps)
qed

lemma shape_table:
  assumes "Field_shape f"
  shows "length (prescribedTable f) = Field_nfens f"
    and "\<forall>r \<in> set (prescribedTable f). length r = Field_dim f"
  using assms by (auto simp: Field_shape_def prescribedTable_def array2d_def split: option.splits)

lemma shape_isPrescribed:
  assumes "Field_shape f" "i < Field_nfens f" "j < Field_dim f"
  shows "Field_isPrescribed f i j = Inr (Val (prescribedTable f ! i ! j))"
  using assms
  by (auto simp: Field_shape_def prescribedTable_def array2d_def Field_isPrescribed_def js_nth_def
      split: option.splits)

lemma shape_row_ok: "Field_shape f \<Longrightarrow> i < Field_nfens f \<Longrightarrow> row_ok f i"
  by (auto simp: Field_shape_def row_ok_def split: option.splits)

lemma shape_presc_table:
  assumes "Field_shape f"
  shows "map (\<lambda>k. map (presc f k) [0..<Field_dim f]) [0..<Field_nfens f] = prescribedTable f"
proof (rule nth_equalityI)
  show "length (map (\<lambda>k. map (presc f k) [0..<Field_dim f]) [0..<Field_nfens f]) =
        length (prescribedTable f)"
    using shape_table(1)[OF assms] by simp
next
  fix i assume "i < length (map (\<lambda>k. map (presc f k) [0..<Field_dim f]) [0..<Field_nfens f])"
  then have i: "i < Field_nfens f" by simp
  then have len: "length (prescribedTable f ! i) = Field_dim f"
    using shape_table[OF assms] by simp
  have "map (presc f i) [0..<Field_dim f] = prescribedTable f ! i"
  proof (rule nth_equalityI)
    show "length (map (presc f i) [0..<Field_dim f]) = length (prescribedTable f ! i)"
      using len by simp
  next
    fix j assume "j < length (map (presc f i) [0..<Field_dim f])"
    then have j: "j < Field_dim f" by simp
    show "map (presc f i) [0..<Field_dim f] ! j = prescribedTable f ! i ! j"
      using shape_isPrescribed[OF assms i j] j by (simp add: presc_def)
  qed
  then show "map (\<lambda>k. map (presc f k) [0..<Field_dim f]) [0..<Field_nfens f] ! i =
             prescribedTable f ! i"
    using i by simp
qed

text \<open>The numbering of a well-shaped field, in closed form.\<close>

lemma numberEqnums_table:
  assumes "Field_shape f"
  shows "Field_numberEqnums f =
     Inr (f\<lparr>f_eqnums := Some (number_rows 0 (prescribedTable f)),
            f_neqns := int (length (filter Not (concat (prescribedTable f))))\<rparr>)"
proof -
  have "numberEqnums_outer f 0 (Field_nfens f) (Field_dim f)
          (array2d (Field_nfens f) (Field_dim f) (- 1)) 0 =
        Inr (number_rows 0 (prescribedTable f),
             int (length (filter Not (concat (prescribedTable f)))))"
    using outer_result[of "Field_nfens f" f "array2d (Field_nfens f) (Field_dim f) (- 1)" 0
        "Field_dim f" 0]
      shape_row_ok[OF assms] shape_presc_table[OF assms]
    by (simp add: array2d_def)
  then show ?thesis
    by (simp add: Field_numberEqnums_def INVALID_EQUATION_NUM_def)
qed

lemma length_concat_rows:
  "\<forall>r \<in> set rs. length r = d \<Longrightarrow> length (concat rs) = length rs * d"
  by (induction rs) auto

lemma free_plus_prescribed: "length (filter Not bs) + length (filter id bs) = length bs"
  using sum_length_filter_compl[of id bs] by (simp add: add.commute)

lemma numbered_neqns:
  assumes "Field_shape f" "Field_numbered f"
  defines "fN \<equiv> f\<lparr>f_eqnums := Some (number_rows 0 (prescribedTable f)),
                   f_neqns := int (length (filter Not (concat (prescribedTable f))))\<rparr>"
  shows "Field_neqns f = Inr (int (length (filter Not (concat (prescribedTable f)))), fN)"
    and "f_eqnums f \<noteq> None \<Longrightarrow> fN = f"
proof -
  have tab: "Field_numberEqnums f = Inr fN"
    unfolding fN_def by (rule numberEqnums_table[OF assms(1)])
  show c: "f_eqnums f \<noteq> None \<Longrightarrow> fN = f"
    using assms(2) tab by (auto simp: Field_numbered_def)
  show "Field_neqns f = Inr (int (length (filter Not (concat (prescribedTable f)))), fN)"
  proof (cases "f_eqnums f")
    case None
    then show ?thesis using tab by (simp add: Field_neqns_def fN_def)
  next
    case (Some E0)
    then have "fN = f" using c by simp
    have "f_neqns fN = int (length (filter Not (concat (prescribedTable f))))"
      by (simp add: fN_def)
    then have "f_neqns f = int (length (filter Not (concat (prescribedTable f))))"
      using \<open>fN = f\<close> by simp
    then show ?thesis using Some \<open>fN = f\<close> by (simp add: Field_neqns_def)
  qed
qed



lemma numbered_eqnum:
  assumes "Field_shape f" "Field_numbered f" "i < Field_nfens f" "j < Field_dim f"
  shows "Field_eqnum f i j =
     Inr (Val (number_rows 0 (prescribedTable f) ! i ! j),
          f\<lparr>f_eqnums := Some (number_rows 0 (prescribedTable f)),
            f_neqns := int (length (filter Not (concat (prescribedTable f))))\<rparr>)"
proof -
  define E where "E = number_rows 0 (prescribedTable f)"
  define fN where "fN = f\<lparr>f_eqnums := Some E,
      f_neqns := int (length (filter Not (concat (prescribedTable f))))\<rparr>"
  have tab: "Field_numberEqnums f = Inr fN"
    unfolding fN_def E_def by (rule numberEqnums_table[OF assms(1)])
  have same: "f_eqnums f \<noteq> None \<Longrightarrow> fN = f"
    using numbered_neqns(2)[OF assms(1,2)] by (simp add: fN_def E_def)
  have first: "(case f_eqnums f of Some _ \<Rightarrow> Inr f | None \<Rightarrow> Field_numberEqnums f) = Inr fN"
    using tab same by (cases "f_eqnums f") auto
  have len: "length E = Field_nfens f" "length (E ! i) = Field_dim f"
    using shape_table[OF assms(1)] assms(3) by (simp_all add: E_def number_rows_nth)
  have fN: "f_eqnums fN = Some E" "Field_nfens fN = Field_nfens f" "Field_dim fN = Field_dim f"
    by (simp_all add: fN_def Field_nfens_def Field_dim_def)
  have "Field_eqnum f i j = Inr (Val (E ! i ! j), fN)"
    unfolding Field_eqnum_def first using fN len assms(3,4) by (simp add: js_nth_def)
  then show ?thesis by (simp add: fN_def E_def)
qed

lemma sampleField_shape: "Field_shape sampleField"
  by (simp add: sampleField_def Field_shape_def Field_nfens_def Field_dim_def
      PointSet_getSize_def PointSet_getRn_def)

lemma sampleField_numbering:
  "Field_numberEqnums sampleField = Inr sampleFieldNumbered"
  unfolding sampleFieldNumbered_def by code_simp

text \<open>
  Claim C1. For a field whose prescribed table has the shape \<open>nfens\<close> by \<open>dim\<close> (or that
  has none), numbering succeeds and yields a table \<open>E\<close> of that shape and a count \<open>n\<close>
  such that: a prescribed entry carries the invalid marker, and a free entry carries the
  number of free entries that come before it in row-major order; the free entries of
  \<open>E\<close>, read row by row, are exactly \<open>0, 1, ..., n - 1\<close>; \<open>n\<close> is \<open>nfens * dim\<close> minus the
  number of prescribed entries; every field with the same prescribed table gets the
  same \<open>E\<close> and \<open>n\<close>; and when the field has no cached numbering, or the cached one
  is the numbering of its prescribed table, \<open>neqns()\<close> returns \<open>n\<close> and \<open>eqnum(i, j)\<close>
  returns the entry of \<open>E\<close>.
\<close>

theorem numberEqnums_dense_row_major:
  assumes "Field_shape f"
  shows "\<exists>E n.
      Field_numberEqnums f = Inr (f\<lparr>f_eqnums := Some E, f_neqns := n\<rparr>)
    \<and> length E = Field_nfens f
    \<and> (\<forall>i < Field_nfens f. length (E ! i) = Field_dim f)
    \<and> (\<forall>i < Field_nfens f. \<forall>j < Field_dim f.
          Field_isPrescribed f i j = Inr (Val (prescribedTable f ! i ! j))
        \<and> E ! i ! j =
            (if prescribedTable f ! i ! j then INVALID_EQUATION_NUM
             else int (length (filter Not
                    (concat (take i (prescribedTable f)) @ take j (prescribedTable f ! i))))))
    \<and> 0 \<le> n
    \<and> filter (\<lambda>e. e \<noteq> INVALID_EQUATION_NUM) (concat E) = map int [0..<nat n]
    \<and> n = int (Field_nfens f * Field_dim f) - int (length (filter id (concat (prescribedTable f))))
    \<and> (\<forall>g :: 'm Field. Field_shape g \<and> prescribedTable g = prescribedTable f \<longrightarrow>
          (\<exists>g'. Field_numberEqnums g = Inr g' \<and> f_eqnums g' = Some E \<and> f_neqns g' = n))
    \<and> (Field_numbered f \<longrightarrow>
          Field_neqns f = Inr (n, f\<lparr>f_eqnums := Some E, f_neqns := n\<rparr>)
        \<and> (\<forall>i < Field_nfens f. \<forall>j < Field_dim f.
              Field_eqnum f i j = Inr (Val (E ! i ! j), f\<lparr>f_eqnums := Some E, f_neqns := n\<rparr>)))"
proof -
  let ?P = "prescribedTable f"
  let ?E = "number_rows 0 ?P"
  let ?n = "int (length (filter Not (concat ?P)))"
  note len = shape_table[OF assms]
  have 1: "Field_numberEqnums f = Inr (f\<lparr>f_eqnums := Some ?E, f_neqns := ?n\<rparr>)"
    by (rule numberEqnums_table[OF assms])
  have 2: "length ?E = Field_nfens f" using len by simp
  have 3: "\<forall>i < Field_nfens f. length (?E ! i) = Field_dim f"
    using len by (simp add: number_rows_nth)
  have 4: "\<forall>i < Field_nfens f. \<forall>j < Field_dim f.
          Field_isPrescribed f i j = Inr (Val (?P ! i ! j))
        \<and> ?E ! i ! j =
            (if ?P ! i ! j then INVALID_EQUATION_NUM
             else int (length (filter Not (concat (take i ?P) @ take j (?P ! i)))))"
    using len shape_isPrescribed[OF assms]
    by (simp add: number_rows_nth number_from_nth INVALID_EQUATION_NUM_def)
  have 5: "filter (\<lambda>e. e \<noteq> INVALID_EQUATION_NUM) (concat ?E) = map int [0..<nat ?n]"
    using number_from_free[of 0 "concat ?P"]
    by (simp add: concat_number_rows INVALID_EQUATION_NUM_def)
  have "length (filter Not (concat ?P)) + length (filter id (concat ?P)) =
        Field_nfens f * Field_dim f"
    using free_plus_prescribed[of "concat ?P"] length_concat_rows[OF len(2)] len(1) by simp
  then have "?n + int (length (filter id (concat ?P))) = int (Field_nfens f * Field_dim f)"
    by (metis of_nat_add)
  then have 6: "?n = int (Field_nfens f * Field_dim f) - int (length (filter id (concat ?P)))"
    by linarith
  have 7: "\<forall>g :: 'm Field. Field_shape g \<and> prescribedTable g = ?P \<longrightarrow>
          (\<exists>g'. Field_numberEqnums g = Inr g' \<and> f_eqnums g' = Some ?E \<and> f_neqns g' = ?n)"
    using numberEqnums_table by fastforce
  have 8: "Field_numbered f \<longrightarrow>
          Field_neqns f = Inr (?n, f\<lparr>f_eqnums := Some ?E, f_neqns := ?n\<rparr>)
        \<and> (\<forall>i < Field_nfens f. \<forall>j < Field_dim f.
              Field_eqnum f i j = Inr (Val (?E ! i ! j), f\<lparr>f_eqnums := Some ?E, f_neqns := ?n\<rparr>))"
    using numbered_neqns(1)[OF assms] numbered_eqnum[OF assms] by simp
  show ?thesis
    using 1 2 3 4 5 6 7 8 by (intro exI[of _ ?E] exI[of _ ?n]) simp
qed

theorem numberEqnums_dense_row_major_witness:
  "Field_shape sampleField
   \<and> (\<exists>E n. Field_numberEqnums sampleField = Inr (sampleField\<lparr>f_eqnums := Some E, f_neqns := n\<rparr>)
        \<and> E = [[0, - 1], [1, 2]] \<and> n = 3
        \<and> filter (\<lambda>e. e \<noteq> INVALID_EQUATION_NUM) (concat E) = map int [0..<nat n]
        \<and> n = int (Field_nfens sampleField * Field_dim sampleField)
                - int (length (filter id (concat (prescribedTable sampleField))))
        \<and> Field_numbered sampleField
        \<and> Field_neqns sampleField = Inr (n, sampleField\<lparr>f_eqnums := Some E, f_neqns := n\<rparr>))"
proof -
  have nb: "Field_numbered sampleField"
    by (simp add: Field_numbered_def sampleField_def)
  obtain E n where
    num: "Field_numberEqnums sampleField = Inr (sampleField\<lparr>f_eqnums := Some E, f_neqns := n\<rparr>)"
    and dense: "filter (\<lambda>e. e \<noteq> INVALID_EQUATION_NUM) (concat E) = map int [0..<nat n]"
    and cnt: "n = int (Field_nfens sampleField * Field_dim sampleField)
                - int (length (filter id (concat (prescribedTable sampleField))))"
    and rd: "Field_numbered sampleField \<longrightarrow>
          Field_neqns sampleField = Inr (n, sampleField\<lparr>f_eqnums := Some E, f_neqns := n\<rparr>)
        \<and> (\<forall>i < Field_nfens sampleField. \<forall>j < Field_dim sampleField.
              Field_eqnum sampleField i j =
                Inr (Val (E ! i ! j), sampleField\<lparr>f_eqnums := Some E, f_neqns := n\<rparr>))"
    using numberEqnums_dense_row_major[OF sampleField_shape] by blast
  have "sampleField\<lparr>f_eqnums := Some E, f_neqns := n\<rparr> = sampleFieldNumbered"
    using num sampleField_numbering by simp
  then have "E = [[0, - 1], [1, 2]]" "n = 3"
    by (simp_all add: sampleFieldNumbered_def sampleField_def)
  then show ?thesis
    using sampleField_shape num dense cnt nb rd by blast
qed

section \<open>Scattering a system vector\<close>

lemma setAtDir_ok:
  assumes "i < length (points vals)" "j < rn vals" "j < length (points vals ! i)"
  shows "PointSet_setAtDir vals i j w =
         Inr (vals\<lparr>points := (points vals)[i := (points vals ! i)[j := w]]\<rparr>)"
  using assms by (simp add: PointSet_setAtDir_def)

lemma scatter_inner_result:
  assumes "i < length eqs" "length (eqs ! i) = d" "i < length (points vals)" "rn vals = d"
    "length (points vals ! i) = d" "j \<le> d"
  shows "scatter_inner eqs vec i j d vals =
     Inr (vals\<lparr>points := (points vals)[i := take j (points vals ! i) @
            map (\<lambda>k. if eqs ! i ! k \<noteq> - 1 then js_nth_int vec (eqs ! i ! k) else points vals ! i ! k)
              [j..<d]]\<rparr>)"
  using assms
proof (induction "d - j" arbitrary: j vals)
  case 0
  then show ?case by simp
next
  case (Suc m)
  then have jd: "j < d" by simp
  have up: "[j..<d] = j # [Suc j..<d]" using jd by (simp add: upt_conv_Cons)
  have rd: "js_nth (eqs ! i) j = Val (eqs ! i ! j)" using jd Suc.prems by (simp add: js_nth_def)
  let ?row = "points vals ! i"
  show ?case
  proof (cases "eqs ! i ! j = - 1")
    case True
    have "scatter_inner eqs vec i j d vals = scatter_inner eqs vec i (Suc j) d vals"
      using jd rd True Suc.prems(1) by (simp add: INVALID_EQUATION_NUM_def)
    also have "\<dots> = Inr (vals\<lparr>points := (points vals)[i := take (Suc j) ?row @
            map (\<lambda>k. if eqs ! i ! k \<noteq> - 1 then js_nth_int vec (eqs ! i ! k) else ?row ! k)
              [Suc j..<d]]\<rparr>)"
      using Suc.hyps(1)[of "Suc j" vals] Suc.hyps(2) Suc.prems jd by simp
    finally show ?thesis
      using True up jd Suc.prems by (simp add: take_Suc_conv_app_nth)
  next
    case False
    let ?w = "js_nth_int vec (eqs ! i ! j)"
    let ?vals = "vals\<lparr>points := (points vals)[i := ?row[j := ?w]]\<rparr>"
    have st: "PointSet_setAtDir vals i j ?w = Inr ?vals"
      using setAtDir_ok[of i vals j ?w] Suc.prems jd by simp
    have "scatter_inner eqs vec i j d vals = scatter_inner eqs vec i (Suc j) d ?vals"
      using jd rd False st Suc.prems(1) by (simp add: INVALID_EQUATION_NUM_def)
    also have "\<dots> = Inr (?vals\<lparr>points := (points ?vals)[i := take (Suc j) (points ?vals ! i) @
            map (\<lambda>k. if eqs ! i ! k \<noteq> - 1 then js_nth_int vec (eqs ! i ! k) else points ?vals ! i ! k)
              [Suc j..<d]]\<rparr>)"
      using Suc.hyps(1)[of "Suc j" ?vals] Suc.hyps(2) Suc.prems jd by simp
    also have "\<dots> = Inr (vals\<lparr>points := (points vals)[i := take j ?row @
            map (\<lambda>k. if eqs ! i ! k \<noteq> - 1 then js_nth_int vec (eqs ! i ! k) else ?row ! k)
              [j..<d]]\<rparr>)"
    proof -
      have meq: "map (\<lambda>k. if eqs ! i ! k \<noteq> - 1 then js_nth_int vec (eqs ! i ! k) else points ?vals ! i ! k)
              [Suc j..<d] =
            map (\<lambda>k. if eqs ! i ! k \<noteq> - 1 then js_nth_int vec (eqs ! i ! k) else ?row ! k)
              [Suc j..<d]"
        using Suc.prems by (intro map_cong) auto
      show ?thesis
        unfolding meq using False up jd Suc.prems by (simp add: take_Suc_conv_app_nth)
    qed
    finally show ?thesis .
  qed
qed

lemma scatter_outer_result:
  assumes "length eqs = n" "\<forall>r<n. length (eqs ! r) = d" "length (points vals) = n" "rn vals = d"
    "\<forall>r<n. length (points vals ! r) = d" "i \<le> n"
  shows "scatter_outer eqs vec i n d vals =
     Inr (vals\<lparr>points := take i (points vals) @
            map (\<lambda>r. map (\<lambda>k. if eqs ! r ! k \<noteq> - 1 then js_nth_int vec (eqs ! r ! k)
                                else points vals ! r ! k) [0..<d]) [i..<n]\<rparr>)"
  using assms
proof (induction "n - i" arbitrary: i vals)
  case 0
  then show ?case by simp
next
  case (Suc m)
  then have lt: "i < n" by simp
  have up: "[i..<n] = i # [Suc i..<n]" using lt by (simp add: upt_conv_Cons)
  let ?R = "\<lambda>r. map (\<lambda>k. if eqs ! r ! k \<noteq> - 1 then js_nth_int vec (eqs ! r ! k)
                                else points vals ! r ! k) [0..<d]"
  let ?vals = "vals\<lparr>points := (points vals)[i := ?R i]\<rparr>"
  have inner: "scatter_inner eqs vec i 0 d vals = Inr ?vals"
    using scatter_inner_result[of i eqs d vals 0 vec] Suc.prems lt by simp
  have "scatter_outer eqs vec i n d vals = scatter_outer eqs vec (Suc i) n d ?vals"
    using lt inner by simp
  also have "\<dots> = Inr (?vals\<lparr>points := take (Suc i) (points ?vals) @
            map (\<lambda>r. map (\<lambda>k. if eqs ! r ! k \<noteq> - 1 then js_nth_int vec (eqs ! r ! k)
                                else points ?vals ! r ! k) [0..<d]) [Suc i..<n]\<rparr>)"
    using Suc.hyps(1)[of "Suc i" ?vals] Suc.hyps(2) Suc.prems lt by (simp add: nth_list_update)
  also have "\<dots> = Inr (vals\<lparr>points := take i (points vals) @ map ?R [i..<n]\<rparr>)"
  proof -
    have meq: "map (\<lambda>r. map (\<lambda>k. if eqs ! r ! k \<noteq> - 1 then js_nth_int vec (eqs ! r ! k)
                                else points ?vals ! r ! k) [0..<d]) [Suc i..<n] =
          map ?R [Suc i..<n]"
      by (intro map_cong) auto
    show ?thesis
      unfolding meq using up lt Suc.prems by (simp add: take_Suc_conv_app_nth)
  qed
  finally show ?case .
qed


lemma free_before_less:
  assumes "i < length P" "j < length (P ! i)" "\<not> P ! i ! j"
  shows "length (filter Not (concat (take i P) @ take j (P ! i))) < length (filter Not (concat P))"
proof -
  have "P = take i P @ (P ! i) # drop (Suc i) P"
    using assms(1) by (simp add: id_take_nth_drop)
  then have "concat P = concat (take i P) @ (P ! i) @ concat (drop (Suc i) P)"
    by (metis concat.simps(2) concat_append)
  moreover have "P ! i = take j (P ! i) @ (P ! i ! j) # drop (Suc j) (P ! i)"
    using assms(2) by (simp add: id_take_nth_drop)
  ultimately have "concat P = (concat (take i P) @ take j (P ! i)) @
      (P ! i ! j) # drop (Suc j) (P ! i) @ concat (drop (Suc i) P)"
    by (metis append.assoc append_Cons)
  then have "length (filter Not (concat P)) =
      length (filter Not (concat (take i P) @ take j (P ! i))) +
      length (filter Not ((P ! i ! j) # drop (Suc j) (P ! i) @ concat (drop (Suc i) P)))"
    by (metis filter_append length_append)
  then show ?thesis using assms(3) by simp
qed

lemma scatter_outer_numbered:
  assumes sh: "Field_shape f" and vs: "values_shape f"
  shows "scatter_outer (number_rows 0 (prescribedTable f)) v 0 (Field_nfens f) (Field_dim f) (f_values f) =
    Inr ((f_values f)\<lparr>points := map (\<lambda>r. map (\<lambda>k. if (number_rows 0 (prescribedTable f)) ! r ! k \<noteq> - 1 then js_nth_int v ((number_rows 0 (prescribedTable f)) ! r ! k)
                               else points (f_values f) ! r ! k) [0..<Field_dim f]) [0..<Field_nfens f]\<rparr>)"
proof -
  let ?P = "prescribedTable f"
  let ?E = "number_rows 0 ?P"
  note len = shape_table[OF sh]
  have rows: "\<forall>r < Field_nfens f. length (?E ! r) = Field_dim f"
    using len by (simp add: number_rows_nth)
  have 1: "length ?E = Field_nfens f" using len by simp
  have 3: "length (points (f_values f)) = Field_nfens f" by (simp add: Field_nfens_def PointSet_getSize_def)
  have 4: "rn (f_values f) = Field_dim f" by (simp add: Field_dim_def PointSet_getRn_def)
  have 5: "\<forall>r<Field_nfens f. length (points (f_values f) ! r) = Field_dim f"
    using vs 3 4 by (simp add: values_shape_def)
  show ?thesis
    using scatter_outer_result[OF 1 rows 3 4 5, of 0 v] by simp
qed


lemma scatterSystemVector_result:
  assumes sh: "Field_shape f" and vs: "values_shape f" and nu: "Field_numbered f"
    and lv: "int (length v) = int (length (filter Not (concat (prescribedTable f))))"
  shows "Field_scatterSystemVector f v =
    Inr (f\<lparr>f_eqnums := Some (number_rows 0 (prescribedTable f)),
           f_neqns := int (length (filter Not (concat (prescribedTable f)))),
           f_values := (f_values f)\<lparr>points := map (\<lambda>r. map (\<lambda>k. if (number_rows 0 (prescribedTable f)) ! r ! k \<noteq> - 1 then js_nth_int v ((number_rows 0 (prescribedTable f)) ! r ! k)
                               else points (f_values f) ! r ! k) [0..<Field_dim f]) [0..<Field_nfens f]\<rparr>\<rparr>)"
proof -
  let ?P = "prescribedTable f"
  let ?E = "number_rows 0 ?P"
  let ?n = "int (length (filter Not (concat ?P)))"
  let ?fN = "f\<lparr>f_eqnums := Some ?E, f_neqns := ?n\<rparr>"
  have neq: "Field_neqns f = Inr (?n, ?fN)"
    using numbered_neqns(1)[OF sh nu] by simp
  have nf: "Field_nfens ?fN = Field_nfens f" "Field_dim ?fN = Field_dim f"
    by (simp_all add: Field_nfens_def Field_dim_def)
  have vec: "isVectorOfDimension v ?n" using lv by (simp add: isVectorOfDimension_def)
  show ?thesis
    unfolding Field_scatterSystemVector_def neq
    using vec scatter_outer_numbered[OF sh vs, of v] by (simp add: nf)
qed


lemma eqnum_cached:
  assumes "f_eqnums g = Some E" "i < Field_nfens g" "j < Field_dim g"
    "i < length E" "j < length (E ! i)"
  shows "Field_eqnum g i j = Inr (Val (E ! i ! j), g)"
  using assms by (simp add: Field_eqnum_def js_nth_def)

text \<open>
  Claim C2. For a well-formed field with \<open>N\<close> free degrees of freedom and every vector
  \<open>v\<close> of length \<open>N\<close>, \<open>scatterSystemVector_(v)\<close> succeeds, and afterwards \<open>at(i)[j]\<close>
  is \<open>v[eqnum(i, j)]\<close> itself for every free entry, with \<open>eqnum(i, j)\<close> inside \<open>v\<close>, and
  the value it was before the call for every prescribed entry.
\<close>

theorem scatter_round_trip:
  assumes "Field_inv f"
  shows "\<exists>N f1. Field_neqns f = Inr (N, f1) \<and>
     (\<forall>v. int (length v) = N \<longrightarrow>
        (\<exists>f'. Field_scatterSystemVector f v = Inr f' \<and>
           (\<forall>i < Field_nfens f. \<forall>j < Field_dim f.
              \<exists>row old p en f2.
                Field_at f' i = Inr row \<and> Field_at f i = Inr old
              \<and> j < length row \<and> j < length old
              \<and> Field_isPrescribed f i j = Inr p
              \<and> Field_eqnum f' i j = Inr (Val en, f2)
              \<and> (if truthy p then row ! j = old ! j
                  else 0 \<le> en \<and> en < N \<and> row ! j = Val (v ! nat en)))))"
proof -
  define P where "P = prescribedTable f"
  define E where "E = number_rows 0 P"
  define n where "n = int (length (filter Not (concat P)))"
  define fN where "fN = f\<lparr>f_eqnums := Some E, f_neqns := n\<rparr>"
  from assms have sh: "Field_shape f" and vs: "values_shape f" and nu: "Field_numbered f"
    by (simp_all add: Field_inv_def)
  have lenP: "length P = Field_nfens f" "\<forall>r \<in> set P. length r = Field_dim f"
    using shape_table[OF sh] by (simp_all add: P_def)
  have neq: "Field_neqns f = Inr (n, fN)"
    using numbered_neqns(1)[OF sh nu] by (simp add: fN_def n_def E_def P_def)
  have lenE: "length E = Field_nfens f" using lenP by (simp add: E_def)
  have rows: "\<And>r. r < Field_nfens f \<Longrightarrow> length (E ! r) = Field_dim f"
    using lenP by (simp add: E_def number_rows_nth)
  have entry: "\<And>i j. i < Field_nfens f \<Longrightarrow> j < Field_dim f \<Longrightarrow>
      E ! i ! j = (if P ! i ! j then - 1
                    else int (length (filter Not (concat (take i P) @ take j (P ! i)))))"
    using lenP by (simp add: E_def number_rows_nth number_from_nth)
  have main: "\<exists>f'. Field_scatterSystemVector f v = Inr f' \<and>
           (\<forall>i < Field_nfens f. \<forall>j < Field_dim f.
              \<exists>row old p en f2.
                Field_at f' i = Inr row \<and> Field_at f i = Inr old
              \<and> j < length row \<and> j < length old
              \<and> Field_isPrescribed f i j = Inr p
              \<and> Field_eqnum f' i j = Inr (Val en, f2)
              \<and> (if truthy p then row ! j = old ! j
                  else 0 \<le> en \<and> en < n \<and> row ! j = Val (v ! nat en)))"
    if lv: "int (length v) = n" for v :: "'a list"
  proof -
    define R where "R = (\<lambda>r. map (\<lambda>k. if E ! r ! k \<noteq> - 1 then js_nth_int v (E ! r ! k)
                               else points (f_values f) ! r ! k) [0..<Field_dim f])"
    define f' where "f' = fN\<lparr>f_values := (f_values f)\<lparr>points := map R [0..<Field_nfens f]\<rparr>\<rparr>"
    have sc: "Field_scatterSystemVector f v = Inr f'"
      using scatterSystemVector_result[OF sh vs nu, of v] lv
      by (simp add: f'_def fN_def R_def E_def n_def P_def)
    have f'1: "f_eqnums f' = Some E" "Field_nfens f' = Field_nfens f" "Field_dim f' = Field_dim f"
      by (simp_all add: f'_def fN_def Field_nfens_def Field_dim_def PointSet_getSize_def
          PointSet_getRn_def)
    have pt: "\<exists>row old p en f2.
                Field_at f' i = Inr row \<and> Field_at f i = Inr old
              \<and> j < length row \<and> j < length old
              \<and> Field_isPrescribed f i j = Inr p
              \<and> Field_eqnum f' i j = Inr (Val en, f2)
              \<and> (if truthy p then row ! j = old ! j
                  else 0 \<le> en \<and> en < n \<and> row ! j = Val (v ! nat en))"
      if i: "i < Field_nfens f" and j: "j < Field_dim f" for i j
    proof -
      have a1: "Field_at f' i = Inr (R i)"
        using i by (simp add: f'_def Field_at_def PointSet_get_def)
      have a2: "Field_at f i = Inr (points (f_values f) ! i)"
        using i by (simp add: Field_at_def PointSet_get_def Field_nfens_def PointSet_getSize_def)
      have a3: "j < length (R i)" using j by (simp add: R_def)
      have a4: "j < length (points (f_values f) ! i)"
        using i j vs
        by (simp add: values_shape_def Field_nfens_def Field_dim_def PointSet_getSize_def
            PointSet_getRn_def)
      have a5: "Field_isPrescribed f i j = Inr (Val (P ! i ! j))"
        unfolding P_def by (rule shape_isPrescribed[OF sh i j])
      have a6: "Field_eqnum f' i j = Inr (Val (E ! i ! j), f')"
        using eqnum_cached[of f' E i j] f'1 i j lenE rows[OF i] by simp
      have Rij: "R i ! j = (if E ! i ! j \<noteq> - 1 then js_nth_int v (E ! i ! j)
                               else points (f_values f) ! i ! j)"
        using j by (simp add: R_def)
      have a7: "if P ! i ! j then R i ! j = points (f_values f) ! i ! j
                else 0 \<le> E ! i ! j \<and> E ! i ! j < n \<and> R i ! j = Val (v ! nat (E ! i ! j))"
      proof (cases "P ! i ! j")
        case True
        then show ?thesis using entry[OF i j] Rij by simp
      next
        case False
        have il: "i < length P" and jl: "j < length (P ! i)" using i j lenP by simp_all
        have lt: "E ! i ! j < n"
          using free_before_less[OF il jl False] entry[OF i j] False by (simp add: n_def)
        have ge: "0 \<le> E ! i ! j" using entry[OF i j] False by simp
        have "E ! i ! j \<noteq> - 1" using ge by simp
        then have "R i ! j = js_nth_int v (E ! i ! j)" using Rij by simp
        also have "\<dots> = Val (v ! nat (E ! i ! j))" using lt ge lv by (simp add: js_nth_int_def)
        finally show ?thesis using False lt ge by simp
      qed
      have a7': "if truthy (Val (P ! i ! j)) then R i ! j = points (f_values f) ! i ! j
                else 0 \<le> E ! i ! j \<and> E ! i ! j < n \<and> R i ! j = Val (v ! nat (E ! i ! j))"
        using a7 by simp
      show ?thesis
        apply (rule exI[of _ "R i"], rule exI[of _ "points (f_values f) ! i"])
        apply (rule exI[of _ "Val (P ! i ! j)"], rule exI[of _ "E ! i ! j"], rule exI[of _ f'])
        apply (intro conjI a1 a2 a3 a4 a5 a6 a7')
        done
    qed
    show ?thesis
      apply (rule exI[of _ f'], rule conjI[OF sc])
      using pt by blast
  qed
  show ?thesis
    apply (rule exI[of _ n], rule exI[of _ fN], rule conjI[OF neq])
    using main by blast
qed

lemma sampleField_inv: "Field_inv sampleField"
  by (simp add: Field_inv_def sampleField_shape)
     (simp add: values_shape_def Field_numbered_def sampleField_def)

lemma sampleField_neqns: "Field_neqns sampleField = Inr (3, sampleFieldNumbered)"
  unfolding sampleFieldNumbered_def by code_simp

lemma sampleField_scatter:
  "Field_scatterSystemVector sampleField [10, 20, 30] =
   Inr (sampleFieldNumbered\<lparr>f_values := \<lparr>rn = 2, points = [[Val 10, Val 7], [Val 20, Val 30]]\<rparr>\<rparr>)"
  unfolding sampleFieldNumbered_def by code_simp

theorem scatter_round_trip_witness:
  "Field_inv sampleField
   \<and> (\<exists>N f1 f'. Field_neqns sampleField = Inr (N, f1) \<and> int (length [10, 20, 30 :: real]) = N
        \<and> Field_scatterSystemVector sampleField [10, 20, 30] = Inr f'
        \<and> Field_at f' 0 = Inr [Val 10, Val 7] \<and> Field_at f' 1 = Inr [Val 20, Val 30])"
proof -
  obtain N f1 where neq: "Field_neqns sampleField = Inr (N, f1)"
    and all: "\<forall>v. int (length v) = N \<longrightarrow>
        (\<exists>f'. Field_scatterSystemVector sampleField v = Inr f' \<and>
           (\<forall>i < Field_nfens sampleField. \<forall>j < Field_dim sampleField.
              \<exists>row old p en f2.
                Field_at f' i = Inr row \<and> Field_at sampleField i = Inr old
              \<and> j < length row \<and> j < length old
              \<and> Field_isPrescribed sampleField i j = Inr p
              \<and> Field_eqnum f' i j = Inr (Val en, f2)
              \<and> (if truthy p then row ! j = old ! j
                  else 0 \<le> en \<and> en < N \<and> row ! j = Val (v ! nat en))))"
    using scatter_round_trip[OF sampleField_inv] by blast
  have N: "N = 3" using neq sampleField_neqns by simp
  then have lv: "int (length [10, 20, 30 :: real]) = N" by simp
  then obtain f' where sc: "Field_scatterSystemVector sampleField [10, 20, 30] = Inr f'"
    using all by blast
  then have f': "f' = sampleFieldNumbered\<lparr>f_values := \<lparr>rn = 2, points = [[Val 10, Val 7], [Val 20, Val 30]]\<rparr>\<rparr>"
    using sampleField_scatter by simp
  have "Field_at f' 0 = Inr [Val 10, Val 7]" "Field_at f' 1 = Inr [Val 20, Val 30]"
    by (simp_all add: f' Field_at_def PointSet_get_def)
  then show ?thesis using sampleField_inv neq lv sc by blast
qed

section \<open>Prescribing a value\<close>

lemma setPrescribedValue_result:
  assumes "f_prescribed f = Some p" "f_prescribedValues f = Some pv"
    "index < length p" "index < length pv" "dir < length (p ! index)" "dir < length (pv ! index)"
    "index < length (points (f_values f))" "dir < rn (f_values f)"
    "dir < length (points (f_values f) ! index)"
  shows "Field_setPrescribedValue f index dir val =
     Inr (f\<lparr>f_prescribed := Some (p[index := (p ! index)[dir := True]]),
            f_prescribedValues := Some (pv[index := (pv ! index)[dir := Val val]]),
            f_values := (f_values f)\<lparr>points :=
               (points (f_values f))[index := (points (f_values f) ! index)[dir := Val val]]\<rparr>\<rparr>)"
  using assms by (simp add: Field_setPrescribedValue_def PointSet_setAtDir_def js_set_def)

lemma nested_update_other:
  "i \<noteq> index \<or> j \<noteq> dir \<Longrightarrow> xs[index := (xs ! index)[dir := v]] ! i ! j = xs ! i ! j"
  by (metis nth_list_update_neq list_update_beyond nth_list_update_eq not_le_imp_less)

text \<open>
  Claim C10. For a field with prescribed tables of the shape \<open>nfens\<close> by \<open>dim\<close> and an
  entry \<open>(index, dir)\<close> inside them, \<open>setPrescribedValue_(index, dir, val)\<close> succeeds; in
  the field it leaves, the prescribed table holds \<open>true\<close>, the prescribed-value table
  holds \<open>val\<close> and the value container holds \<open>val\<close> at \<open>(index, dir)\<close>, and every other
  entry of the three tables is what it was.
\<close>

theorem setPrescribedValue_frame:
  assumes "Field_shape f" "prescribedValues_shape f" "values_shape f"
    and "f_prescribed f = Some p" "index < Field_nfens f" "dir < Field_dim f"
  shows "\<exists>pv p' pv' vals'.
      f_prescribedValues f = Some pv
    \<and> Field_setPrescribedValue f index dir val =
        Inr (f\<lparr>f_prescribed := Some p', f_prescribedValues := Some pv',
               f_values := (f_values f)\<lparr>points := vals'\<rparr>\<rparr>)
    \<and> p' = p[index := (p ! index)[dir := True]]
    \<and> pv' = pv[index := (pv ! index)[dir := Val val]]
    \<and> vals' = (points (f_values f))[index := (points (f_values f) ! index)[dir := Val val]]
    \<and> p' ! index ! dir = True \<and> pv' ! index ! dir = Val val \<and> vals' ! index ! dir = Val val
    \<and> (\<forall>i j. i \<noteq> index \<or> j \<noteq> dir \<longrightarrow>
           p' ! i ! j = p ! i ! j \<and> pv' ! i ! j = pv ! i ! j
         \<and> vals' ! i ! j = points (f_values f) ! i ! j)"
proof -
  obtain pv where pv: "f_prescribedValues f = Some pv"
    and lpv: "length pv = Field_nfens f" "\<forall>r \<in> set pv. length r = Field_dim f"
    using assms(2,4) by (auto simp: prescribedValues_shape_def split: option.splits)
  have lp: "length p = Field_nfens f" "\<forall>r \<in> set p. length r = Field_dim f"
    using assms(1,4) by (auto simp: Field_shape_def)
  have lv: "length (points (f_values f)) = Field_nfens f" "rn (f_values f) = Field_dim f"
    "\<forall>r \<in> set (points (f_values f)). length r = Field_dim f"
    using assms(3)
    by (auto simp: values_shape_def Field_nfens_def Field_dim_def PointSet_getSize_def
        PointSet_getRn_def)
  have r1: "dir < length (p ! index)" using lp assms(5,6) by simp
  have r2: "dir < length (pv ! index)" using lpv assms(5,6) by simp
  have r3: "dir < length (points (f_values f) ! index)" using lv assms(5,6) by simp
  have res: "Field_setPrescribedValue f index dir val =
     Inr (f\<lparr>f_prescribed := Some (p[index := (p ! index)[dir := True]]),
            f_prescribedValues := Some (pv[index := (pv ! index)[dir := Val val]]),
            f_values := (f_values f)\<lparr>points :=
               (points (f_values f))[index := (points (f_values f) ! index)[dir := Val val]]\<rparr>\<rparr>)"
    using setPrescribedValue_result[OF assms(4) pv _ _ r1 r2 _ _ r3] lp lpv lv assms(5,6) by simp
  have hit: "p[index := (p ! index)[dir := True]] ! index ! dir = True"
    "pv[index := (pv ! index)[dir := Val val]] ! index ! dir = Val val"
    "(points (f_values f))[index := (points (f_values f) ! index)[dir := Val val]] ! index ! dir = Val val"
    using lp lpv lv r1 r2 r3 assms(5) by simp_all
  show ?thesis
    apply (rule exI[of _ pv])
    apply (rule exI[of _ "p[index := (p ! index)[dir := True]]"])
    apply (rule exI[of _ "pv[index := (pv ! index)[dir := Val val]]"])
    apply (rule exI[of _ "(points (f_values f))[index := (points (f_values f) ! index)[dir := Val val]]"])
    using pv res hit by (simp add: nested_update_other)
qed


lemma sampleField_shapes:
  "prescribedValues_shape sampleField" "values_shape sampleField"
  "f_prescribed sampleField = Some [[False, True], [False, False]]"
  "0 < Field_nfens sampleField" "0 < Field_dim sampleField"
  by (simp_all add: sampleField_def prescribedValues_shape_def values_shape_def Field_nfens_def
      Field_dim_def PointSet_getSize_def PointSet_getRn_def)

theorem setPrescribedValue_frame_witness:
  "Field_shape sampleField \<and> prescribedValues_shape sampleField \<and> values_shape sampleField
   \<and> f_prescribed sampleField = Some [[False, True], [False, False]]
   \<and> 0 < Field_nfens sampleField \<and> 0 < Field_dim sampleField
   \<and> (\<exists>f'. Field_setPrescribedValue sampleField 0 0 5 = Inr f'
          \<and> f_prescribed f' = Some [[True, True], [False, False]]
          \<and> f_prescribedValues f' = Some [[Val 5, Val 7], [Val 0, Val 0]]
          \<and> points (f_values f') = [[Val 5, Val 7], [Val 3, Val 4]])"
proof -
  obtain pv p' pv' vals' where
    pv: "f_prescribedValues sampleField = Some pv"
    and res: "Field_setPrescribedValue sampleField 0 0 5 =
        Inr (sampleField\<lparr>f_prescribed := Some p', f_prescribedValues := Some pv',
               f_values := (f_values sampleField)\<lparr>points := vals'\<rparr>\<rparr>)"
    and p': "p' = [[False, True], [False, False]][0 := ([[False, True], [False, False]] ! 0)[0 := True]]"
    and pv': "pv' = pv[0 := (pv ! 0)[0 := Val 5]]"
    and vals': "vals' = (points (f_values sampleField))[0 := (points (f_values sampleField) ! 0)[0 := Val 5]]"
    using setPrescribedValue_frame[OF sampleField_shape sampleField_shapes, of 5] by blast
  have "pv = [[Val 0, Val 7], [Val 0, Val 0]]" using pv by (simp add: sampleField_def)
  then have "pv' = [[Val 5, Val 7], [Val 0, Val 0]]" using pv' by simp
  moreover have "p' = [[True, True], [False, False]]" using p' by simp
  moreover have "vals' = [[Val 5, Val 7], [Val 3, Val 4]]" using vals' by (simp add: sampleField_def)
  ultimately show ?thesis
    using res sampleField_shape sampleField_shapes by simp
qed

section \<open>The cached numbering and later mutation\<close>

lemma setAtDir_size:
  "PointSet_setAtDir vals i j w = Inr vals' \<Longrightarrow>
   length (points vals') = length (points vals) \<and> rn vals' = rn vals"
  by (auto simp: PointSet_setAtDir_def split: if_splits)

lemma setPrescribedValue_fields:
  assumes "Field_setPrescribedValue f index dir val = Inr f'"
  shows "f_eqnums f' = f_eqnums f" "f_neqns f' = f_neqns f"
    "Field_nfens f' = Field_nfens f" "Field_dim f' = Field_dim f"
  using assms setAtDir_size[of "f_values f" index dir "Val val"]
  by (auto simp: Field_setPrescribedValue_def Field_nfens_def Field_dim_def PointSet_getSize_def
      PointSet_getRn_def split: option.splits if_splits sum.splits)

text \<open>
  Claim C9, as amended. \<open>setPrescribedValue_\<close> does not touch the cached numbering: the
  equation-number table and the count are the same after it. For a field whose numbering
  was cached, \<open>neqns()\<close> and \<open>eqnum(i, j)\<close> therefore return after the mutation what
  they returned before it; only a field that was not numbered yet numbers the new
  prescribed table at its next read.
\<close>

theorem setPrescribedValue_keeps_cache:
  assumes "Field_setPrescribedValue f index dir val = Inr f'"
  shows "f_eqnums f' = f_eqnums f \<and> f_neqns f' = f_neqns f
    \<and> (f_eqnums f \<noteq> None \<longrightarrow>
          Field_neqns f' = Inr (f_neqns f, f') \<and> Field_neqns f = Inr (f_neqns f, f)
        \<and> (\<forall>i j. map_sum id fst (Field_eqnum f' i j) = map_sum id fst (Field_eqnum f i j)))
    \<and> (f_eqnums f = None \<longrightarrow>
          Field_neqns f' =
            (case Field_numberEqnums f' of Inl e \<Rightarrow> Inl e | Inr f'' \<Rightarrow> Inr (f_neqns f'', f'')))"
proof -
  note fl = setPrescribedValue_fields[OF assms]
  have 1: "f_eqnums f \<noteq> None \<longrightarrow>
      Field_neqns f' = Inr (f_neqns f, f') \<and> Field_neqns f = Inr (f_neqns f, f)"
    using fl by (auto simp: Field_neqns_def)
  have 2: "f_eqnums f \<noteq> None \<longrightarrow>
      (\<forall>i j. map_sum id fst (Field_eqnum f' i j) = map_sum id fst (Field_eqnum f i j))"
    using fl by (auto simp: Field_eqnum_def)
  have 3: "f_eqnums f = None \<longrightarrow>
          Field_neqns f' =
            (case Field_numberEqnums f' of Inl e \<Rightarrow> Inl e | Inr f'' \<Rightarrow> Inr (f_neqns f'', f''))"
    using fl by (simp add: Field_neqns_def)
  show ?thesis using fl(1,2) 1 2 3 by blast
qed

lemma sampleField_mutation:
  "Field_setPrescribedValue sampleFieldNumbered 0 0 5 = Inr sampleFieldMutated"
  by (simp add: sampleFieldNumbered_def sampleField_def sampleFieldMutated_def
      Field_setPrescribedValue_def PointSet_setAtDir_def js_set_def)

theorem setPrescribedValue_keeps_cache_witness:
  "Field_setPrescribedValue sampleFieldNumbered 0 0 5 = Inr sampleFieldMutated
   \<and> f_eqnums sampleFieldMutated = f_eqnums sampleFieldNumbered
   \<and> f_eqnums sampleFieldNumbered \<noteq> None
   \<and> Field_neqns sampleFieldMutated = Inr (f_neqns sampleFieldNumbered, sampleFieldMutated)
   \<and> map_sum id fst (Field_eqnum sampleFieldMutated 0 0) =
       map_sum id fst (Field_eqnum sampleFieldNumbered 0 0)"
proof -
  have "f_eqnums sampleFieldNumbered \<noteq> None" by (simp add: sampleFieldNumbered_def)
  then show ?thesis
    using setPrescribedValue_keeps_cache[OF sampleField_mutation] sampleField_mutation by blast
qed

text \<open>
  Claim C9 as stated fails: the sample field is numbered (three equations), then entry
  \<open>(0, 0)\<close> is prescribed; \<open>eqnum(0, 0)\<close> still answers 0 and \<open>neqns()\<close> still answers 3,
  although the entry is prescribed now and numbering the new table gives the invalid
  marker there and two equations.
\<close>

theorem cache_invalidation_counterexample:
  "Field_neqns sampleField = Inr (3, sampleFieldNumbered)
   \<and> Field_setPrescribedValue sampleFieldNumbered 0 0 5 = Inr sampleFieldMutated
   \<and> Field_isPrescribed sampleFieldMutated 0 0 = Inr (Val True)
   \<and> Field_eqnum sampleFieldMutated 0 0 = Inr (Val 0, sampleFieldMutated)
   \<and> Field_neqns sampleFieldMutated = Inr (3, sampleFieldMutated)
   \<and> Field_numberEqnums sampleFieldMutated =
       Inr (sampleFieldMutated\<lparr>f_eqnums := Some [[- 1, - 1], [0, 1]], f_neqns := 2\<rparr>)"
proof -
  have a: "Field_isPrescribed sampleFieldMutated 0 0 = Inr (Val True)"
    by (simp add: sampleFieldMutated_def Field_isPrescribed_def js_nth_def)
  have b: "Field_eqnum sampleFieldMutated 0 0 = Inr (Val 0, sampleFieldMutated)"
    by (simp add: sampleFieldMutated_def Field_eqnum_def js_nth_def Field_nfens_def Field_dim_def
        PointSet_getSize_def PointSet_getRn_def)
  have c: "Field_neqns sampleFieldMutated = Inr (3, sampleFieldMutated)"
    by (simp add: sampleFieldMutated_def Field_neqns_def)
  have d: "Field_numberEqnums sampleFieldMutated =
       Inr (sampleFieldMutated\<lparr>f_eqnums := Some [[- 1, - 1], [0, 1]], f_neqns := 2\<rparr>)"
    by code_simp
  show ?thesis using sampleField_neqns sampleField_mutation a b c d by simp
qed

section \<open>Cell sets: construction, subset and boundary\<close>

lemma length_derive_cells [simp]: "length (derive_cells k cs) = Suc k"
  by (induction k arbitrary: cs) auto

lemma derive_cells_top [simp]: "derive_cells k cs ! k = cs"
  by (cases k) (auto simp: nth_append)

lemma defined_rows_Val [simp]: "defined_rows (map Val xs) = Some xs"
  by (induction xs) auto




lemma dim_le2: "GCellSet_dim ty \<le> 2"
  by (cases ty) auto






lemma hypercube_Inr:
  assumes "hypercube conn D = Inr t"
  obtains rows where "defined_rows conn = Some rows"
    "\<forall>r \<in> set rows. length r = length (hd rows)"
    "t = \<lparr>t_dim = D, t_cells = derive_cells D rows\<rparr>"
proof (cases "defined_rows conn")
  case None
  then show ?thesis using assms by (simp add: hypercube_def)
next
  case (Some rows)
  show ?thesis
  proof (cases "2 < D \<or> (\<exists>r \<in> set rows. length r \<noteq> length (hd rows))")
    case True
    then show ?thesis using assms Some by (simp add: hypercube_def)
  next
    case False
    then have "t = \<lparr>t_dim = D, t_cells = derive_cells D rows\<rparr>"
      using assms Some by (simp add: hypercube_def)
    then show ?thesis using that[of rows] Some False by blast
  qed
qed

lemma GCellSet_new_Inr:
  assumes "GCellSet_new ty uid opts t = Inr g"
  shows "Topology_getCellSizeInDim t (Topology_getDim t) = Val (GCellSet_cellSize ty)"
    and "Topology_getDim t = GCellSet_dim ty"
    and "g_type g = ty" and "g_topology g = t"
proof -
  have 1: "Topology_getCellSizeInDim t (Topology_getDim t) = Val (GCellSet_cellSize ty)"
    using assms unfolding GCellSet_new_def Let_def by (cases "Topology_getCellSizeInDim t (Topology_getDim t) = Val (GCellSet_cellSize ty)") simp_all
  have 2: "Topology_getDim t = GCellSet_dim ty"
    using assms 1 unfolding GCellSet_new_def Let_def by (cases "Topology_getDim t = GCellSet_dim ty") simp_all
  have 3: "g = \<lparr>g_type = ty, g_axisSymm = (case o_axisSymm opts of Some b \<Rightarrow> b | None \<Rightarrow> False),
          g_otherDimension = (case o_otherDimension opts of Some od \<Rightarrow> od | None \<Rightarrow> OdNumber 1),
          g_id = uid, g_topology = t\<rparr>"
    using assms 1 2 unfolding GCellSet_new_def Let_def by simp
  show "Topology_getCellSizeInDim t (Topology_getDim t) = Val (GCellSet_cellSize ty)" by (rule 1)
  show "Topology_getDim t = GCellSet_dim ty" by (rule 2)
  show "g_type g = ty" "g_topology g = t" using 3 by simp_all
qed

lemma top_rows:
  "Topology_getCellsInDim \<lparr>t_dim = D, t_cells = derive_cells D rows\<rparr>
     (Topology_getDim \<lparr>t_dim = D, t_cells = derive_cells D rows\<rparr>) = rows"
  by (simp add: Topology_getCellsInDim_def Topology_getDim_def)

lemma cellSize_rows:
  assumes "Topology_getCellSizeInDim \<lparr>t_dim = D, t_cells = derive_cells D rows\<rparr>
     (Topology_getDim \<lparr>t_dim = D, t_cells = derive_cells D rows\<rparr>) = Val n"
  shows "rows \<noteq> [] \<and> length (hd rows) = n"
proof (cases rows)
  case Nil
  then show ?thesis using assms unfolding Topology_getCellSizeInDim_def top_rows by simp
next
  case (Cons c cs)
  then show ?thesis using assms unfolding Topology_getCellSizeInDim_def top_rows by simp
qed

lemma GCellSet_new_inv:
  assumes "hypercube conn D = Inr t" "GCellSet_new ty uid opts t = Inr g"
  shows "GCellSet_inv g"
proof -
  obtain rows where rows: "defined_rows conn = Some rows"
    and same: "\<forall>r \<in> set rows. length r = length (hd rows)"
    and t: "t = \<lparr>t_dim = D, t_cells = derive_cells D rows\<rparr>"
    using hypercube_Inr[OF assms(1)] by blast
  note n = GCellSet_new_Inr[OF assms(2)]
  have r: "rows \<noteq> [] \<and> length (hd rows) = GCellSet_cellSize ty"
    using cellSize_rows[of D rows "GCellSet_cellSize ty"] n(1) unfolding t by simp
  have d: "D = GCellSet_dim ty" using n(2) unfolding t Topology_getDim_def by simp
  have 1: "t_dim (g_topology g) = GCellSet_dim (g_type g)"
    unfolding n(3) n(4) t using d by simp
  have 2: "length (t_cells (g_topology g)) = Suc (t_dim (g_topology g))"
    unfolding n(4) t by simp
  have 3: "t_cells (g_topology g) ! t_dim (g_topology g) = rows"
    unfolding n(4) t by simp
  have 4: "\<forall>c \<in> set rows. length c = GCellSet_cellSize (g_type g)"
    unfolding n(3) using same r by simp
  show ?thesis
    unfolding GCellSet_inv_def 3 using 1 2 4 r by simp
qed

lemma gcell_new_Inr:
  assumes "gcell_new ty uid arg = Inr g"
  obtains opts conn t where "arg = Options opts" "o_conn opts = Some conn"
    "hypercube conn (GCellSet_dim ty) = Inr t" "GCellSet_new ty uid opts t = Inr g"
proof (cases arg)
  case NoArgument
  then show ?thesis using assms by (cases ty) (simp_all add: L2_new_def Q4_new_def)
next
  case (TopologyObject t)
  then show ?thesis using assms by (cases ty) (simp_all add: L2_new_def Q4_new_def)
next
  case (Options opts)
  show ?thesis
  proof (cases "o_conn opts")
    case None
    then show ?thesis using assms Options by (cases ty) (simp_all add: L2_new_def Q4_new_def)
  next
    case (Some conn)
    show ?thesis
    proof (cases "hypercube conn (GCellSet_dim ty)")
      case (Inl e)
      then show ?thesis
        using assms Options Some by (cases ty) (simp_all add: L2_new_def Q4_new_def)
    next
      case (Inr t)
      then have "GCellSet_new ty uid opts t = Inr g"
        using assms Options Some by (cases ty) (simp_all add: L2_new_def Q4_new_def)
      then show ?thesis using that Options Some Inr by blast
    qed
  qed
qed

lemma constructed_inv: "gcell_new ty uid arg = Inr g \<Longrightarrow> GCellSet_inv g"
  using gcell_new_Inr GCellSet_new_inv by metis

lemma same_cell_set: "same_cell a b \<longleftrightarrow> set a = set b"
  by (auto simp: same_cell_def list_all_iff)

lemma derive_cells_1: "derive_cells 1 cs = [dedup_cells [] (concat (map (cell_faces 1) cs)), cs]"
  by simp

lemma derive_cells_2:
  "derive_cells 2 cs = derive_cells 1 (dedup_cells [] (concat (map (cell_faces 2) cs))) @ [cs]"
  by (simp add: numeral_2_eq_2)

lemma cell_faces_2: "cell_faces 2 [a, b, c, d] = [[a, b], [b, c], [c, d], [d, a]]"
  by (simp add: numeral_2_eq_2)

lemma sampleQuads_cells:
  "derive_cells 2 [[0, 1, 2, 3], [3, 2, 4, 5], [3, 5, 6, 7]] =
     [[[0], [1], [2], [3], [4], [5], [6], [7]],
      [[0, 1], [1, 2], [2, 3], [3, 0], [2, 4], [4, 5], [5, 3], [5, 6], [6, 7], [7, 3]],
      [[0, 1, 2, 3], [3, 2, 4, 5], [3, 5, 6, 7]]]"
  by (simp add: derive_cells_2 cell_faces_2 same_cell_def)

lemma oneQuad_cells:
  "derive_cells 2 [[0, 1, 2, 3]] =
     [[[0], [1], [2], [3]], [[0, 1], [1, 2], [2, 3], [3, 0]], [[0, 1, 2, 3]]]"
  by (simp add: derive_cells_2 cell_faces_2 same_cell_def)







lemma oneQuad_new: "Q4_new ''q'' (Options oneQuadOptions) = Inr oneQuad"
  by (simp add: Q4_new_def oneQuadOptions_def oneQuad_def hypercube_def GCellSet_new_def
      derive_cells_2 cell_faces_2 same_cell_def Topology_getCellSizeInDim_def
      Topology_getCellsInDim_def Topology_getDim_def)

lemma oneQuad_boundaryTopology:
  "Topology_boundary (g_topology oneQuad) =
   Inr \<lparr>t_dim = 1, t_cells = [[[0], [1], [2], [3]], [[0, 1], [1, 2], [2, 3], [3, 0]]]\<rparr>"
  by (simp add: Topology_boundary_def oneQuad_def Topology_getDim_def Topology_getMaxCells_def
      Topology_getCellsInDim_def cell_faces_2 same_cell_def Let_def)

lemma ctor_rejects_topology: "gcell_new C uid (TopologyObject t) = Inl InvalidInputError"
  by (cases C) (simp_all add: L2_new_def Q4_new_def)

lemma boundary_never_returns: "\<exists>e. GCellSet_boundary uid g = Inl e"
proof (cases "GCellSet_boundaryGCellSetConstructor (g_type g)")
  case UndefinedName
  then show ?thesis by (simp add: GCellSet_boundary_def)
next
  case (Ctor C)
  then show ?thesis
    by (cases "Topology_boundary (g_topology g)")
       (simp_all add: GCellSet_boundary_def ctor_rejects_topology)
qed

text \<open>
  Claim C3. The code departs from it: for the \<open>Q4\<close> set built from \<open>[[0,1,2,3]]\<close> the
  boundary topology does have the four sides as its edges, but \<open>boundary()\<close> hands that
  Topology to the \<open>L2\<close> constructor, which asks for an option object with a \<open>conn\<close>
  property and throws. Whatever the cell set and its topology, \<open>boundary()\<close> ends in an
  error.
\<close>

theorem Q4_boundary_fails:
  "Q4_new ''q'' (Options oneQuadOptions) = Inr oneQuad
   \<and> GCellSet_boundaryGCellSetConstructor (g_type oneQuad) = Ctor L2
   \<and> Topology_boundary (g_topology oneQuad) =
       Inr \<lparr>t_dim = 1, t_cells = [[[0], [1], [2], [3]], [[0, 1], [1, 2], [2, 3], [3, 0]]]\<rparr>
   \<and> GCellSet_boundary ''b'' oneQuad = Inl InvalidInputError
   \<and> (\<exists>e. GCellSet_boundary uid g = Inl e)"
proof -
  have "GCellSet_boundaryGCellSetConstructor (g_type oneQuad) = Ctor L2"
    by (simp add: oneQuad_def)
  moreover from this have "GCellSet_boundary ''b'' oneQuad = Inl InvalidInputError"
    using oneQuad_boundaryTopology by (simp add: GCellSet_boundary_def L2_new_def)
  moreover have "\<exists>e. GCellSet_boundary uid g = Inl e"
    by (rule boundary_never_returns)
  ultimately show ?thesis using oneQuad_new oneQuad_boundaryTopology by simp
qed

section \<open>Properties of the shape functions\<close>





lemma L2_bfun_rejects: "length p \<noteq> 1 \<Longrightarrow> L2_bfun p = Inl InvalidInputError"
  by (simp add: L2_bfun_def vectorOfDimension_def)

lemma L2_bfundpar_rejects: "length p \<noteq> 1 \<Longrightarrow> L2_bfundpar p = Inl InvalidInputError"
  by (simp add: L2_bfundpar_def vectorOfDimension_def)

text \<open>
  Claim C6. The code departs from it for \<open>Q4\<close>: \<open>L2\<close> rejects a vector that is not
  of length 1 through its contract, but \<open>Q4.bfun\<close> and \<open>Q4.bfundpar\<close> check nothing. On
  a vector of length 1 \<open>Q4.bfun\<close> returns four NaN entries, on a vector of length 3 both
  return a matrix computed from the first two components; no vector makes them fail.
\<close>

theorem Q4_bfun_no_length_check:
  "Q4_bfun [1 / 2] = Inr [[NaN], [NaN], [NaN], [NaN]]
   \<and> Q4_bfun [0, 0, 0] = Inr [[Num (1 / 4)], [Num (1 / 4)], [Num (1 / 4)], [Num (1 / 4)]]
   \<and> Q4_bfundpar [0, 0, 0] =
       Inr [[Num (- (1 / 4)), Num (- (1 / 4))], [Num (1 / 4), Num (- (1 / 4))],
            [Num (1 / 4), Num (1 / 4)], [Num (- (1 / 4)), Num (1 / 4)]]
   \<and> L2_bfun [0, 0] = Inl InvalidInputError
   \<and> L2_bfundpar [0, 0] = Inl InvalidInputError
   \<and> (\<exists>m. Q4_bfun p = Inr m) \<and> (\<exists>m. Q4_bfundpar p = Inr m)"
proof -
  have "\<exists>m. Q4_bfun p = Inr m" "\<exists>m. Q4_bfundpar p = Inr m"
    by (simp_all add: Q4_bfun_def Q4_bfundpar_def Let_def)
  then show ?thesis
    by (simp add: Q4_bfun_def Q4_bfundpar_def js_nth_def L2_bfun_rejects L2_bfundpar_rejects)
qed







section \<open>Properties of the Jacobians\<close>

text \<open>
  Claim C8. For a 1-manifold cell set \<open>jacobianInDim\<close> is the curve, surface and volume
  Jacobian for \<open>dim\<close> 1, 2 and 3 and fails with \<open>UnsupportedDimensionError\<close> for every
  other value; for a 2-manifold cell set it is the surface and volume Jacobian for \<open>dim\<close>
  2 and 3 and fails for every other value, \<open>dim = 1\<close> among them.
\<close>

theorem jacobianInDim_dispatch:
  "Manifold1GCellSet_jacobianInDim g conn N J x 1 = Manifold1GCellSet_jacobianCurve g conn N J x
   \<and> Manifold1GCellSet_jacobianInDim g conn N J x 2 = Manifold1GCellSet_jacobianSurface g conn N J x
   \<and> Manifold1GCellSet_jacobianInDim g conn N J x 3 = Manifold1GCellSet_jacobianVolumn g conn N J x
   \<and> (dm \<noteq> 1 \<and> dm \<noteq> 2 \<and> dm \<noteq> 3 \<longrightarrow>
        Manifold1GCellSet_jacobianInDim g conn N J x dm = Inl UnsupportedDimensionError)
   \<and> Manifold2GCellSet_jacobianInDim g conn N J x 2 = Manifold2GCellSet_jacobianSurface g conn N J x
   \<and> Manifold2GCellSet_jacobianInDim g conn N J x 3 = Manifold2GCellSet_jacobianVolumn g conn N J x
   \<and> (dm \<noteq> 2 \<and> dm \<noteq> 3 \<longrightarrow>
        Manifold2GCellSet_jacobianInDim g conn N J x dm = Inl UnsupportedDimensionError)
   \<and> Manifold2GCellSet_jacobianInDim g conn N J x 1 = Inl UnsupportedDimensionError"
  by (simp add: Manifold1GCellSet_jacobianInDim_def Manifold2GCellSet_jacobianInDim_def)

theorem jacobianInDim_dispatch_witness:
  "(4 :: int) \<noteq> 1 \<and> (4 :: int) \<noteq> 2 \<and> (4 :: int) \<noteq> 3
   \<and> Manifold1GCellSet_jacobianInDim oneQuad [0, 1] [[1 / 2], [1 / 2]] [[5], [0]] [[0, 0], [10, 0]] 4
        = Inl UnsupportedDimensionError
   \<and> Manifold2GCellSet_jacobianInDim oneQuad [0, 1, 2, 3] [] [[2, 0], [0, 3]] [] 4
        = Inl UnsupportedDimensionError
   \<and> Manifold2GCellSet_jacobianInDim oneQuad [0, 1, 2, 3] [] [[2, 0], [0, 3]] [] 1
        = Inl UnsupportedDimensionError
   \<and> Manifold2GCellSet_jacobianInDim oneQuad [0, 1, 2, 3] [] [[2, 0], [0, 3]] [] 2
        = Manifold2GCellSet_jacobianSurface oneQuad [0, 1, 2, 3] [] [[2, 0], [0, 3]] []"
  using jacobianInDim_dispatch[of oneQuad "[0, 1]" "[[1 / 2], [1 / 2]]" "[[5], [0]]"
      "[[0, 0], [10, 0]]" 4]
    jacobianInDim_dispatch[of oneQuad "[0, 1, 2, 3]" "[]" "[[2, 0], [0, 3]]" "[]" 4]
  by simp




end
